theory Spec2Isabelle
  imports Complex_Main "HOL-Library.Stream" "HOL-Library.Multiset"
begin

section \<open>The particle system of the fish-mouth water cleaner\<close>

text \<open>
  The development embeds the component \<open>AdvancedParticleSystem\<close> (the particle field
  simulator): the construction of the particle population, the callback registered with
  \<open>useFrame\<close> that advances every particle once per rendered frame, and the packing of
  the particles' transforms into the four instanced meshes.

  The source is \<open>src/App.tsx\<close>, lines 465 to 659; the line numbers below refer to it.

  JavaScript numbers are modelled as the real numbers they approximate, so \<open>Math.sqrt\<close>,
  \<open>Math.cos\<close>, \<open>Math.sin\<close> and \<open>Math.PI\<close> are \<open>sqrt\<close>, \<open>cos\<close>, \<open>sin\<close> and \<open>pi\<close>; rounding,
  signed zeros and NaN are outside the model. The hidden state of \<open>Math.random\<close> is an
  explicit stream of the numbers it is going to return.
\<close>

subsection \<open>Data\<close>

text \<open>
  The enumeration \<open>ParticleType\<close> (lines 762 to 765) has two members, \<open>WATER\<close> and
  \<open>MICROPLASTIC\<close>. The component also reads \<open>ParticleType.ALGAE\<close> and
  \<open>ParticleType.SEDIMENT\<close>, members that the enumeration does not have: at run time both
  expressions are \<open>undefined\<close>. So the value of a member expression, and of the field \<open>type\<close>
  of a particle, is a member of the enumeration or \<open>undefined\<close>, which is \<open>None\<close> here.
\<close>

datatype ParticleType = WATER | MICROPLASTIC

definition ALGAE :: "ParticleType option" where "ALGAE = None"

definition SEDIMENT :: "ParticleType option" where "SEDIMENT = None"

datatype ViewMode = NATURE | PRODUCT

text \<open>\<open>THREE.Vector3\<close> and \<open>THREE.Euler\<close>: the fields \<open>x\<close>, \<open>y\<close>, \<open>z\<close> of the source.\<close>

record Vector3 =
  vec_x :: real
  vec_y :: real
  vec_z :: real

record Euler =
  eul_x :: real
  eul_y :: real
  eul_z :: real

text \<open>
  An element of the array \<open>particles\<close> (lines 499 to 514); \<open>ptype\<close> is the field \<open>type\<close>.
\<close>

record particle =
  position :: Vector3
  velocity :: Vector3
  ptype :: "ParticleType option"
  rotation :: Euler
  rotationSpeed :: real
  filtered :: bool

text \<open>
  The scratch object \<open>dummy\<close>. \<open>dummy.updateMatrix()\<close> composes its matrix from these three
  fields and \<open>setMatrixAt\<close> copies that matrix into the instance buffer, so an entry of an
  instance buffer is modelled by the transform it was composed from.
\<close>

record Object3D =
  obj_position :: Vector3
  obj_rotation :: Euler
  obj_scale :: Vector3

text \<open>The properties of the component (line 472).\<close>

record props =
  flowRate :: real
  density :: real
  isRunning :: bool
  viewMode :: ViewMode

text \<open>
  What the component keeps between frames: the particles, the state of \<open>Math.random\<close>, and
  the four mesh references, \<open>None\<close> while a reference is still \<open>null\<close> and otherwise the
  instance buffer of the mesh.
\<close>

record world =
  particles :: "particle list"
  random :: "real stream"
  waterMesh :: "Object3D list option"
  plasticMesh :: "Object3D list option"
  algaeMesh :: "Object3D list option"
  sedimentMesh :: "Object3D list option"

text \<open>The running indices and the buffers while the loop over the particles runs.\<close>

record batch =
  waterIdx :: nat
  plasticIdx :: nat
  algaeIdx :: nat
  sedimentIdx :: nat
  waterBuf :: "Object3D list"
  plasticBuf :: "Object3D list"
  algaeBuf :: "Object3D list"
  sedimentBuf :: "Object3D list"

subsection \<open>Constants\<close>

text \<open>Lines 467 to 470 and 481 to 484, and \<open>total\<close> of line 488.\<close>

definition COUNT_WATER :: nat where "COUNT_WATER = 500"
definition COUNT_PLASTIC :: nat where "COUNT_PLASTIC = 100"
definition COUNT_ALGAE :: nat where "COUNT_ALGAE = 100"
definition COUNT_SEDIMENT :: nat where "COUNT_SEDIMENT = 100"

definition START_Z :: real where "START_Z = 10"
definition END_Z :: real where "END_Z = - 15"
definition CONE_SLOPE :: real where "CONE_SLOPE = 0.15"
definition INITIAL_RADIUS :: real where "INITIAL_RADIUS = 2.5"

definition total :: nat where
  "total = COUNT_WATER + COUNT_PLASTIC + COUNT_ALGAE + COUNT_SEDIMENT"

subsection \<open>Library functions the component calls\<close>

text \<open>
  \<open>Math.atan2(y, x)\<close> on real arguments: the angle in \<open>(-pi, pi]\<close> of the point \<open>(x, y)\<close>,
  and \<open>0\<close> at the origin.
\<close>

definition atan2 :: "real \<Rightarrow> real \<Rightarrow> real" where
  "atan2 y x =
     (if 0 < x then arctan (y / x)
      else if x < 0 then (if 0 \<le> y then arctan (y / x) + pi else arctan (y / x) - pi)
      else if 0 < y then pi / 2
      else if y < 0 then - (pi / 2)
      else 0)"

text \<open>\<open>THREE.MathUtils.lerp(x, y, t)\<close> is \<open>(1 - t) * x + t * y\<close>.\<close>

definition lerp :: "real \<Rightarrow> real \<Rightarrow> real \<Rightarrow> real" where
  "lerp x y t = (1 - t) * x + t * y"

text \<open>\<open>v.addScaledVector(w, s)\<close> adds \<open>s\<close> times \<open>w\<close> to \<open>v\<close>.\<close>

definition addScaledVector :: "Vector3 \<Rightarrow> Vector3 \<Rightarrow> real \<Rightarrow> Vector3" where
  "addScaledVector v w s =
     \<lparr>vec_x = vec_x v + vec_x w * s, vec_y = vec_y v + vec_y w * s, vec_z = vec_z v + vec_z w * s\<rparr>"

text \<open>
  \<open>mesh.setMatrixAt(i, m)\<close> writes the sixteen numbers of \<open>m\<close> at offset \<open>16 * i\<close> of the
  mesh's typed array; a write beyond the end of a typed array is dropped, which is what
  the list update does beyond the end of a list.
\<close>

definition setMatrixAt :: "Object3D list \<Rightarrow> nat \<Rightarrow> Object3D \<Rightarrow> Object3D list" where
  "setMatrixAt buf i m = buf[i := m]"

subsection \<open>Building the population\<close>

text \<open>The species of the particle at place \<open>i\<close> (lines 491 to 494).\<close>

definition type_of_index :: "nat \<Rightarrow> ParticleType option" where
  "type_of_index i =
     (if COUNT_WATER \<le> i \<and> i < COUNT_WATER + COUNT_PLASTIC then Some MICROPLASTIC
      else if COUNT_WATER + COUNT_PLASTIC \<le> i \<and> i < COUNT_WATER + COUNT_PLASTIC + COUNT_ALGAE
        then ALGAE
      else if COUNT_WATER + COUNT_PLASTIC + COUNT_ALGAE \<le> i then SEDIMENT
      else Some WATER)"

text \<open>
  One pass of the loop that fills \<open>items\<close> (lines 496 to 514): ten calls of \<open>Math.random\<close>,
  in the order in which the source makes them.
\<close>

definition new_particle :: "nat \<Rightarrow> real stream \<Rightarrow> particle \<times> real stream" where
  "new_particle i g =
     (let radius = g !! 0 * INITIAL_RADIUS;
          angle = g !! 1 * pi * 2
      in (\<lparr>position = \<lparr>vec_x = cos angle * radius, vec_y = sin angle * radius,
                        vec_z = START_Z + g !! 2 * 20\<rparr>,
           velocity = \<lparr>vec_x = (g !! 3 - 0.5) * 0.1, vec_y = (g !! 4 - 0.5) * 0.1,
                        vec_z = - (0.5 + g !! 5 * 0.5)\<rparr>,
           ptype = type_of_index i,
           rotation = \<lparr>eul_x = g !! 6, eul_y = g !! 7, eul_z = g !! 8\<rparr>,
           rotationSpeed = g !! 9 * 0.1,
           filtered = False\<rparr>,
          sdrop 10 g))"

fun init_items :: "nat list \<Rightarrow> real stream \<Rightarrow> particle list \<times> real stream" where
  "init_items [] g = ([], g)"
| "init_items (i # rest) g =
     (let (p, g1) = new_particle i g;
          (ps, g2) = init_items rest g1
      in (p # ps, g2))"

definition init_particles :: "real stream \<Rightarrow> particle list \<times> real stream" where
  "init_particles g = init_items [0..<total] g"

subsection \<open>One particle in one frame\<close>

text \<open>
  The body of the loop over the particles, lines 529 to 586. The cone radius and the
  distance from the axis (lines 540 to 542) are functions of the position.
\<close>

definition currentConeRadius :: "Vector3 \<Rightarrow> real" where
  "currentConeRadius v =
     (let depth = START_Z - vec_z v in max 0.5 (INITIAL_RADIUS - depth * CONE_SLOPE))"

definition distFromCenter :: "Vector3 \<Rightarrow> real" where
  "distFromCenter v = sqrt ((vec_x v)\<^sup>2 + (vec_y v)\<^sup>2)"

text \<open>Step 1, move forward (lines 530 and 531).\<close>

definition move_forward :: "real \<Rightarrow> real \<Rightarrow> particle \<Rightarrow> particle" where
  "move_forward fr delta p =
     (let speedMultiplier = fr * 10 * delta
      in p\<lparr>position := addScaledVector (position p) (velocity p) speedMultiplier\<rparr>)"

text \<open>Step 2, rotate (lines 534 to 537).\<close>

definition rotate :: "particle \<Rightarrow> particle" where
  "rotate p =
     (if ptype p \<noteq> Some WATER
      then p\<lparr>rotation := (rotation p)\<lparr>eul_x := eul_x (rotation p) + rotationSpeed p,
                                      eul_y := eul_y (rotation p) + rotationSpeed p\<rparr>\<rparr>
      else p)"

text \<open>Step 3, the solids' ricochet off the cone wall (lines 548 to 553).\<close>

definition ricochet :: "particle \<Rightarrow> particle" where
  "ricochet p =
     (let r = currentConeRadius (position p);
          angle = atan2 (vec_y (position p)) (vec_x (position p))
      in p\<lparr>position := (position p)\<lparr>vec_x := cos angle * (r - 0.3),
                                      vec_y := sin angle * (r - 0.3)\<rparr>,
           velocity := \<lparr>vec_x = vec_x (velocity p) + - cos angle * 0.5,
                        vec_y = vec_y (velocity p) + - sin angle * 0.5,
                        vec_z = vec_z (velocity p) * 1.1\<rparr>\<rparr>)"

text \<open>Step 3, hydrodynamic focusing (lines 556 and 557).\<close>

definition focus :: "particle \<Rightarrow> particle" where
  "focus p =
     p\<lparr>position := (position p)\<lparr>vec_x := lerp (vec_x (position p)) 0 0.01,
                                  vec_y := lerp (vec_y (position p)) 0 0.01\<rparr>\<rparr>"

text \<open>Step 3, water permeation (lines 562 to 566).\<close>

definition permeate :: "particle \<Rightarrow> particle" where
  "permeate p =
     (let r = currentConeRadius (position p);
          d = distFromCenter (position p);
          angle = atan2 (vec_y (position p)) (vec_x (position p))
      in p\<lparr>velocity := \<lparr>vec_x = vec_x (velocity p) + cos angle * 0.05,
                        vec_y = vec_y (velocity p) + sin angle * 0.05,
                        vec_z = vec_z (velocity p) * 0.9\<rparr>,
           filtered := (if r < d then True else filtered p)\<rparr>)"

text \<open>
  Step 3 as a whole (lines 544 to 569). The radius and the distance are those of the
  position after step 1, as the source computes them before the tests.
\<close>

definition filter_interaction :: "particle \<Rightarrow> particle" where
  "filter_interaction p =
     (let r = currentConeRadius (position p);
          d = distFromCenter (position p)
      in if vec_z (position p) < 5 \<and> - 10 < vec_z (position p) then
           if ptype p \<noteq> Some WATER then focus (if r - 0.2 \<le> d then ricochet p else p)
           else if r * 0.8 < d \<and> \<not> filtered p then permeate p
           else p
         else p)"

text \<open>
  Step 4, reset: the test (line 572), and the body with its six calls of \<open>Math.random\<close>
  (lines 573 to 585).
\<close>

definition needs_reset :: "particle \<Rightarrow> bool" where
  "needs_reset p \<longleftrightarrow> vec_z (position p) < END_Z \<or> 5 < \<bar>vec_x (position p)\<bar>"

definition reset :: "particle \<Rightarrow> real stream \<Rightarrow> particle \<times> real stream" where
  "reset p g =
     (let angle = g !! 0 * pi * 2;
          r = g !! 1 * INITIAL_RADIUS
      in (p\<lparr>position := \<lparr>vec_x = cos angle * r, vec_y = sin angle * r,
                          vec_z = START_Z + g !! 2 * 5\<rparr>,
            velocity := \<lparr>vec_x = (g !! 3 - 0.5) * 0.1, vec_y = (g !! 4 - 0.5) * 0.1,
                          vec_z = - (0.5 + g !! 5 * 0.5)\<rparr>,
            filtered := False\<rparr>,
          sdrop 6 g))"

text \<open>Steps 1 to 3: the particle as the reset test sees it.\<close>

definition advance :: "real \<Rightarrow> real \<Rightarrow> particle \<Rightarrow> particle" where
  "advance fr delta p = filter_interaction (rotate (move_forward fr delta p))"

text \<open>Steps 1 to 4.\<close>

definition update_particle ::
  "real \<Rightarrow> real \<Rightarrow> particle \<Rightarrow> real stream \<Rightarrow> particle \<times> real stream" where
  "update_particle fr delta p g =
     (let q = advance fr delta p in if needs_reset q then reset q g else (q, g))"

subsection \<open>The transform of a particle and its place in the meshes\<close>

text \<open>
  The scale (lines 592 to 597), the transform given to \<open>dummy\<close> (lines 588 to 600) and the
  write into the mesh that the particle's type selects, at that mesh's running index (lines
  602 to 605). A particle whose type is \<open>undefined\<close> passes both the test for
  \<open>ParticleType.ALGAE\<close> and the test for \<open>ParticleType.SEDIMENT\<close>.
\<close>

definition render_scale :: "particle \<Rightarrow> real" where
  "render_scale p =
     (let s = 0.08;
          s = (if ptype p = Some MICROPLASTIC then 0.15 else s);
          s = (if ptype p = ALGAE then 0.12 else s);
          s = (if ptype p = SEDIMENT then 0.1 else s);
          s = (if ptype p = Some WATER \<and> filtered p then s * 0.1 else s)
      in s)"

definition make_dummy :: "particle \<Rightarrow> Object3D" where
  "make_dummy p =
     (let s = render_scale p
      in \<lparr>obj_position = position p, obj_rotation = rotation p,
          obj_scale = \<lparr>vec_x = s, vec_y = s, vec_z = s\<rparr>\<rparr>)"

definition emit :: "particle \<Rightarrow> batch \<Rightarrow> batch" where
  "emit p b =
     (let m = make_dummy p
      in if ptype p = Some WATER
           then b\<lparr>waterBuf := setMatrixAt (waterBuf b) (waterIdx b) m,
                  waterIdx := waterIdx b + 1\<rparr>
         else if ptype p = Some MICROPLASTIC
           then b\<lparr>plasticBuf := setMatrixAt (plasticBuf b) (plasticIdx b) m,
                  plasticIdx := plasticIdx b + 1\<rparr>
         else if ptype p = ALGAE
           then b\<lparr>algaeBuf := setMatrixAt (algaeBuf b) (algaeIdx b) m,
                  algaeIdx := algaeIdx b + 1\<rparr>
         else if ptype p = SEDIMENT
           then b\<lparr>sedimentBuf := setMatrixAt (sedimentBuf b) (sedimentIdx b) m,
                  sedimentIdx := sedimentIdx b + 1\<rparr>
         else b)"

subsection \<open>The frame callback\<close>

text \<open>
  \<open>particles.forEach\<close> (lines 528 to 606): the particles in array order, each updated and
  then emitted.
\<close>

fun forEach_particle ::
  "real \<Rightarrow> real \<Rightarrow> particle list \<Rightarrow> real stream \<Rightarrow> batch \<Rightarrow> particle list \<times> real stream \<times> batch"
  where
  "forEach_particle fr delta [] g b = ([], g, b)"
| "forEach_particle fr delta (p # ps) g b =
     (let (p', g1) = update_particle fr delta p g;
          b1 = emit p' b;
          (ps', g2, b2) = forEach_particle fr delta ps g1 b1
      in (p' # ps', g2, b2))"

text \<open>
  The callback given to \<open>useFrame\<close> (lines 519 to 612). The flags \<open>needsUpdate\<close> it sets at the end only tell
  the renderer to upload the buffers again and carry no state of the simulation.
\<close>

definition useFrame :: "props \<Rightarrow> real \<Rightarrow> world \<Rightarrow> world" where
  "useFrame pr delta w =
     (if \<not> isRunning pr then w
      else case (waterMesh w, plasticMesh w, algaeMesh w, sedimentMesh w) of
        (Some wm, Some pm, Some am, Some sm) \<Rightarrow>
          (let b0 = \<lparr>waterIdx = 0, plasticIdx = 0, algaeIdx = 0, sedimentIdx = 0,
                     waterBuf = wm, plasticBuf = pm, algaeBuf = am, sedimentBuf = sm\<rparr>;
               (ps', g', b') = forEach_particle (flowRate pr) delta (particles w) (random w) b0
           in w\<lparr>particles := ps', random := g',
                waterMesh := Some (waterBuf b'), plasticMesh := Some (plasticBuf b'),
                algaeMesh := Some (algaeBuf b'), sedimentMesh := Some (sedimentBuf b')\<rparr>)
      | _ \<Rightarrow> w)"

text \<open>The render loop: one call of the callback per frame, with that frame's properties.\<close>

fun frames :: "(props \<times> real) list \<Rightarrow> world \<Rightarrow> world" where
  "frames [] w = w"
| "frames ((pr, delta) # rest) w = frames rest (useFrame pr delta w)"

text \<open>
  The component once it is mounted: the particles built from the random source, and the
  four instanced meshes attached, created with the capacities \<open>COUNT_WATER\<close>,
  \<open>COUNT_PLASTIC\<close>, \<open>COUNT_ALGAE\<close> and \<open>COUNT_SEDIMENT\<close> (lines 616, 627, 639 and 649);
  \<open>fill\<close> is whatever the renderer's library puts into a fresh instance buffer.
\<close>

definition mounted :: "real stream \<Rightarrow> Object3D \<Rightarrow> world" where
  "mounted g fill =
     (let (ps, g') = init_particles g
      in \<lparr>particles = ps, random = g',
          waterMesh = Some (replicate COUNT_WATER fill),
          plasticMesh = Some (replicate COUNT_PLASTIC fill),
          algaeMesh = Some (replicate COUNT_ALGAE fill),
          sedimentMesh = Some (replicate COUNT_SEDIMENT fill)\<rparr>)"

text \<open>The identity transform: no translation, no rotation, scale 1.\<close>

definition identity_transform :: Object3D where
  "identity_transform =
     \<lparr>obj_position = \<lparr>vec_x = 0, vec_y = 0, vec_z = 0\<rparr>,
      obj_rotation = \<lparr>eul_x = 0, eul_y = 0, eul_z = 0\<rparr>,
      obj_scale = \<lparr>vec_x = 1, vec_y = 1, vec_z = 1\<rparr>\<rparr>"

subsection \<open>The life of one particle\<close>

text \<open>
  The frames as one particle sees them: in each frame the flow rate, the time since the
  last frame, and the state of \<open>Math.random\<close> at the moment the loop reaches the particle.
\<close>

fun life :: "(real \<times> real \<times> real stream) list \<Rightarrow> particle \<Rightarrow> particle" where
  "life [] p = p"
| "life ((fr, delta, g) # rest) p = life rest (fst (update_particle fr delta p g))"

text \<open>
  The states a particle can be in: it is built with the population and then updated frame
  after frame, and \<open>Math.random\<close> only ever returns numbers from \<open>0\<close> up to, and not
  including, \<open>1\<close>.
\<close>

inductive in_life :: "particle \<Rightarrow> bool" where
  spawned: "sset g \<subseteq> {0..<1} \<Longrightarrow> in_life (fst (new_particle i g))"
| updated: "in_life p \<Longrightarrow> sset g \<subseteq> {0..<1} \<Longrightarrow> in_life (fst (update_particle fr delta p g))"

subsection \<open>Private random numbers\<close>


subsection \<open>Particular particles\<close>

text \<open>
  The MICROPLASTIC particle of the scenario: at \<open>(2.4, 0, 9)\<close>, without lateral velocity,
  with axial velocity \<open>vz\<close>, and any orientation and spin.
\<close>

definition scenario_particle :: "real \<Rightarrow> Euler \<Rightarrow> real \<Rightarrow> particle" where
  "scenario_particle vz rot spin =
     \<lparr>position = \<lparr>vec_x = 2.4, vec_y = 0, vec_z = 9\<rparr>,
      velocity = \<lparr>vec_x = 0, vec_y = 0, vec_z = vz\<rparr>,
      ptype = Some MICROPLASTIC, rotation = rot, rotationSpeed = spin, filtered = False\<rparr>"

text \<open>
  A WATER particle as the population loop builds it from the random numbers
  \<open>0.4, 0.25, 0, 0.5, 0.9, 0, ...\<close>: on the circle of radius 1 at the angle \<open>pi / 2\<close>, so at
  \<open>(0, 1, 10)\<close>, with velocity \<open>(0, 0.04, -0.5)\<close>.
\<close>

definition drifting_particle :: particle where
  "drifting_particle = fst (new_particle 0 ([0.4, 0.25, 0, 0.5, 0.9] @- sconst 0))"

text \<open>
  The component mounted with a random source that starts with those numbers, so that this
  particle is the first of the array.
\<close>

definition drifting_world :: world where
  "drifting_world = mounted ([0.4, 0.25, 0, 0.5, 0.9] @- sconst 0) identity_transform"

section \<open>Properties\<close>

subsection \<open>Auxiliary facts\<close>

lemmas bounds_defs = START_Z_def END_Z_def CONE_SLOPE_def INITIAL_RADIUS_def

lemmas step_defs =
  filter_interaction_def focus_def ricochet_def permeate_def rotate_def move_forward_def
  addScaledVector_def lerp_def

lemma ptype_advance: "ptype (advance fr delta p) = ptype p"
  by (simp add: advance_def step_defs Let_def)

lemma ptype_update: "ptype (fst (update_particle fr delta p g)) = ptype p"
  by (simp add: update_particle_def Let_def reset_def ptype_advance)

lemma filtered_advance: "filtered p \<Longrightarrow> filtered (advance fr delta p)"
  by (simp add: advance_def step_defs Let_def)

lemma advance_filtered_water:
  "ptype p = Some WATER \<Longrightarrow> filtered p \<Longrightarrow> advance fr delta p = move_forward fr delta p"
  by (simp add: advance_def step_defs Let_def)

lemma filtered_update:
  "filtered p \<Longrightarrow>
   filtered (fst (update_particle fr delta p g)) = (\<not> needs_reset (advance fr delta p))"
  by (simp add: update_particle_def Let_def reset_def filtered_advance)

lemma filtered_life:
  "filtered p \<Longrightarrow>
   \<forall>k<length ins. (case ins ! k of (fr, delta, g) \<Rightarrow>
      \<not> needs_reset (advance fr delta (life (take k ins) p))) \<Longrightarrow>
   filtered (life ins p)"
proof (induction ins arbitrary: p)
  case Nil
  then show ?case by simp
next
  case (Cons a ins)
  obtain fr delta g where a: "a = (fr, delta, g)" by (cases a)
  from Cons.prems(2)[rule_format, of 0] a have "\<not> needs_reset (advance fr delta p)" by simp
  with Cons.prems(1) have f: "filtered (fst (update_particle fr delta p g))"
    by (simp add: filtered_update)
  have "\<forall>k<length ins. (case ins ! k of (fr', delta', g') \<Rightarrow>
      \<not> needs_reset (advance fr' delta' (life (take k ins) (fst (update_particle fr delta p g)))))"
  proof (intro allI impI)
    fix k assume "k < length ins"
    then have "Suc k < length (a # ins)" by simp
    from Cons.prems(2)[rule_format, OF this] a
    show "case ins ! k of (fr', delta', g') \<Rightarrow>
      \<not> needs_reset (advance fr' delta' (life (take k ins) (fst (update_particle fr delta p g))))"
      by simp
  qed
  from Cons.IH[OF f this] a show ?case by simp
qed

lemma random_range: "sset g \<subseteq> {0..<1} \<Longrightarrow> 0 \<le> g !! n \<and> g !! n < 1"
proof -
  assume "sset g \<subseteq> {0..<1}"
  then have "g !! n \<in> {0..<1}" by (rule subsetD) (rule snth_sset)
  then show ?thesis by simp
qed

lemma vz_new: "vec_z (velocity (fst (new_particle i g))) = - (0.5 + g !! 5 * 0.5)"
  by (simp add: new_particle_def Let_def)

lemma vz_reset: "vec_z (velocity (fst (reset q g))) = - (0.5 + g !! 5 * 0.5)"
  by (simp add: reset_def Let_def)

lemma vz_advance:
  "vec_z (velocity (advance fr delta p)) \<in>
     {vec_z (velocity p), vec_z (velocity p) * 1.1, vec_z (velocity p) * 0.9}"
  by (simp add: advance_def step_defs Let_def)

lemma vz_advance_neg: "vec_z (velocity p) < 0 \<Longrightarrow> vec_z (velocity (advance fr delta p)) < 0"
  using vz_advance[of fr delta p] by auto

lemma vz_update_neg:
  "vec_z (velocity p) < 0 \<Longrightarrow> sset g \<subseteq> {0..<1} \<Longrightarrow>
   vec_z (velocity (fst (update_particle fr delta p g))) < 0"
  using random_range[of g 5] by (simp add: update_particle_def Let_def vz_reset vz_advance_neg)

lemma in_life_vz: "in_life p \<Longrightarrow> vec_z (velocity p) < 0"
proof (induction rule: in_life.induct)
  case (spawned g i)
  then show ?case using random_range[of g 5] by (simp add: vz_new)
next
  case (updated p g fr delta)
  then show ?case by (simp add: vz_update_neg)
qed

lemma z_advance:
  "vec_z (position (advance fr delta p)) =
     vec_z (position p) + vec_z (velocity p) * (fr * 10 * delta)"
  by (simp add: advance_def step_defs Let_def)

lemma cone_ge: "0.5 \<le> currentConeRadius v"
  by (simp add: currentConeRadius_def Let_def)

lemma cone_formula: "currentConeRadius v = max 0.5 (2.5 - 0.15 * (10 - vec_z v))"
  by (simp add: currentConeRadius_def Let_def bounds_defs mult.commute)

lemma dist_scaled:
  assumes r: "0 \<le> r"
  shows "sqrt ((c * (cos a * r))\<^sup>2 + (c * (sin a * r))\<^sup>2) = \<bar>c\<bar> * r"
proof -
  have "(c * (cos a * r))\<^sup>2 + (c * (sin a * r))\<^sup>2 = (c * r)\<^sup>2 * ((cos a)\<^sup>2 + (sin a)\<^sup>2)"
    by algebra
  also have "\<dots> = (c * r)\<^sup>2" by simp
  finally show ?thesis using r by (simp add: abs_mult)
qed

lemma distFromCenter_axis [simp]: "distFromCenter \<lparr>vec_x = a, vec_y = 0, vec_z = c\<rparr> = \<bar>a\<bar>"
  by (simp add: distFromCenter_def)

text \<open>
  A solid that has reached the wall inside the interaction band: steps 1 to 3 leave it on
  the circle of radius \<open>0.99 * (r - 0.3)\<close>, at the depth the move brought it to, and the
  reset test does not fire.
\<close>

lemma solid_wall_contact:
  assumes solid: "ptype p \<noteq> Some WATER"
    and band: "- 10 < vec_z (position (move_forward fr delta p))"
      "vec_z (position (move_forward fr delta p)) < 5"
    and wall: "currentConeRadius (position (move_forward fr delta p)) - 0.2
                 \<le> distFromCenter (position (move_forward fr delta p))"
  shows "distFromCenter (position (advance fr delta p)) =
           0.99 * (currentConeRadius (position (move_forward fr delta p)) - 0.3)"
    and "vec_z (position (advance fr delta p)) = vec_z (position (move_forward fr delta p))"
    and "\<not> needs_reset (advance fr delta p)"
proof -
  define q where "q = rotate (move_forward fr delta p)"
  define r where "r = currentConeRadius (position q)"
  define a where "a = atan2 (vec_y (position q)) (vec_x (position q))"
  have pq: "position q = position (move_forward fr delta p)" "ptype q = ptype p"
    by (simp_all add: q_def rotate_def move_forward_def Let_def)
  have r03: "0 \<le> r - 0.3" using cone_ge[of "position q"] by (simp add: r_def)
  have adv: "advance fr delta p = focus (ricochet q)"
    using solid band wall unfolding advance_def q_def[symmetric]
    by (simp add: filter_interaction_def Let_def pq)
  have x: "vec_x (position (focus (ricochet q))) = 0.99 * (cos a * (r - 0.3))"
    and y: "vec_y (position (focus (ricochet q))) = 0.99 * (sin a * (r - 0.3))"
    and z: "vec_z (position (focus (ricochet q))) = vec_z (position q)"
    by (simp_all add: focus_def ricochet_def lerp_def Let_def r_def a_def)
  show "distFromCenter (position (advance fr delta p)) =
          0.99 * (currentConeRadius (position (move_forward fr delta p)) - 0.3)"
    unfolding adv distFromCenter_def x y
    using dist_scaled[OF r03, of "0.99" a] by (simp add: r_def pq)
  show "vec_z (position (advance fr delta p)) = vec_z (position (move_forward fr delta p))"
    by (simp add: adv z pq)
  have "INITIAL_RADIUS - (START_Z - vec_z (position q)) * CONE_SLOPE \<le> 1.75"
    using band by (simp add: pq bounds_defs)
  then have rle: "r \<le> 1.75"
    unfolding r_def currentConeRadius_def Let_def by (intro max.boundedI) simp_all
  have "\<bar>cos a * (r - 0.3)\<bar> \<le> 1 * (r - 0.3)"
    unfolding abs_mult using r03 by (intro mult_mono) auto
  then have "\<bar>vec_x (position (advance fr delta p))\<bar> \<le> 5"
    using rle by (simp add: adv x abs_mult)
  then show "\<not> needs_reset (advance fr delta p)"
    using band by (simp add: needs_reset_def adv z pq bounds_defs)
qed

lemma useFrame_reads:
  "flowRate p = flowRate q \<Longrightarrow> isRunning p = isRunning q \<Longrightarrow> useFrame p d w = useFrame q d w"
  by (simp add: useFrame_def split: option.split)

lemmas count_defs = COUNT_WATER_def COUNT_PLASTIC_def COUNT_ALGAE_def COUNT_SEDIMENT_def

text \<open>The loop emits the updated particles in array order and keeps every species.\<close>

lemma forEach_result:
  "forEach_particle fr delta ps g b = (ps', g', b') \<Longrightarrow>
   b' = foldl (\<lambda>b p. emit p b) b ps' \<and> map ptype ps' = map ptype ps"
proof (induction ps arbitrary: g b ps' g' b')
  case Nil
  then show ?case by simp
next
  case (Cons p ps)
  obtain q g1 where u: "update_particle fr delta p g = (q, g1)" by (cases "update_particle fr delta p g")
  obtain qs g2 b2 where r: "forEach_particle fr delta ps g1 (emit q b) = (qs, g2, b2)"
    by (cases "forEach_particle fr delta ps g1 (emit q b)")
  from Cons.prems u r have e: "ps' = q # qs" "g' = g2" "b' = b2" by simp_all
  have "ptype q = ptype p" using ptype_update[of fr delta p g] u by simp
  with Cons.IH[OF r] e show ?case by simp
qed

lemma emit_water:
  "waterIdx b + length (filter (\<lambda>p. ptype p = Some WATER) ps) \<le> length (waterBuf b) \<Longrightarrow>
   waterBuf (foldl (\<lambda>b p. emit p b) b ps) =
     take (waterIdx b) (waterBuf b) @ map make_dummy (filter (\<lambda>p. ptype p = Some WATER) ps)
       @ drop (waterIdx b + length (filter (\<lambda>p. ptype p = Some WATER) ps)) (waterBuf b)
   \<and> waterIdx (foldl (\<lambda>b p. emit p b) b ps) = waterIdx b + length (filter (\<lambda>p. ptype p = Some WATER) ps)"
proof (induction ps arbitrary: b)
  case Nil
  then show ?case by simp
next
  case (Cons p ps)
  show ?case
  proof (cases "ptype p = Some WATER")
    case True
    let ?b = "emit p b"
    have i: "waterIdx b < length (waterBuf b)" using Cons.prems True by simp
    have b1: "waterIdx ?b = Suc (waterIdx b)" "waterBuf ?b = (waterBuf b)[waterIdx b := make_dummy p]"
      using True by (simp_all add: emit_def Let_def setMatrixAt_def)
    have "waterIdx ?b + length (filter (\<lambda>p. ptype p = Some WATER) ps) \<le> length (waterBuf ?b)"
      using Cons.prems True b1 by simp
    from Cons.IH[OF this] show ?thesis using True i
      by (simp add: b1 take_Suc_conv_app_nth)
  next
    case False
    let ?b = "emit p b"
    have b1: "waterIdx ?b = waterIdx b" "waterBuf ?b = waterBuf b"
      using False by (simp_all add: emit_def Let_def)
    have "waterIdx ?b + length (filter (\<lambda>p. ptype p = Some WATER) ps) \<le> length (waterBuf ?b)"
      using Cons.prems False b1 by simp
    from Cons.IH[OF this] show ?thesis using False by (simp add: b1)
  qed
qed


lemma emit_plastic:
  "plasticIdx b + length (filter (\<lambda>p. ptype p = Some MICROPLASTIC) ps) \<le> length (plasticBuf b) \<Longrightarrow>
   plasticBuf (foldl (\<lambda>b p. emit p b) b ps) =
     take (plasticIdx b) (plasticBuf b) @ map make_dummy (filter (\<lambda>p. ptype p = Some MICROPLASTIC) ps)
       @ drop (plasticIdx b + length (filter (\<lambda>p. ptype p = Some MICROPLASTIC) ps)) (plasticBuf b)
   \<and> plasticIdx (foldl (\<lambda>b p. emit p b) b ps) = plasticIdx b + length (filter (\<lambda>p. ptype p = Some MICROPLASTIC) ps)"
proof (induction ps arbitrary: b)
  case Nil
  then show ?case by simp
next
  case (Cons p ps)
  show ?case
  proof (cases "ptype p = Some MICROPLASTIC")
    case True
    let ?b = "emit p b"
    have i: "plasticIdx b < length (plasticBuf b)" using Cons.prems True by simp
    have b1: "plasticIdx ?b = Suc (plasticIdx b)" "plasticBuf ?b = (plasticBuf b)[plasticIdx b := make_dummy p]"
      using True by (simp_all add: emit_def Let_def setMatrixAt_def)
    have "plasticIdx ?b + length (filter (\<lambda>p. ptype p = Some MICROPLASTIC) ps) \<le> length (plasticBuf ?b)"
      using Cons.prems True b1 by simp
    from Cons.IH[OF this] show ?thesis using True i
      by (simp add: b1 take_Suc_conv_app_nth)
  next
    case False
    let ?b = "emit p b"
    have b1: "plasticIdx ?b = plasticIdx b" "plasticBuf ?b = plasticBuf b"
      using False by (simp_all add: emit_def Let_def)
    have "plasticIdx ?b + length (filter (\<lambda>p. ptype p = Some MICROPLASTIC) ps) \<le> length (plasticBuf ?b)"
      using Cons.prems False b1 by simp
    from Cons.IH[OF this] show ?thesis using False by (simp add: b1)
  qed
qed

text \<open>
  The third branch of the write takes every particle whose type is \<open>undefined\<close>, so the
  fourth is never reached. Beyond the end of the algae buffer the writes are dropped.
\<close>

lemma emit_undefined:
  "ptype p = None \<Longrightarrow>
   emit p b = b\<lparr>algaeBuf := (algaeBuf b)[algaeIdx b := make_dummy p], algaeIdx := Suc (algaeIdx b)\<rparr>"
  by (simp add: emit_def Let_def setMatrixAt_def ALGAE_def)

lemma emit_defined_algae:
  "ptype p \<noteq> None \<Longrightarrow> algaeBuf (emit p b) = algaeBuf b \<and> algaeIdx (emit p b) = algaeIdx b"
  by (auto simp add: emit_def Let_def ALGAE_def SEDIMENT_def)

lemma emit_algae:
  "algaeBuf (foldl (\<lambda>b p. emit p b) b ps) =
     take (length (algaeBuf b))
       (take (algaeIdx b) (algaeBuf b) @ map make_dummy (filter (\<lambda>p. ptype p = None) ps)
          @ drop (algaeIdx b + length (filter (\<lambda>p. ptype p = None) ps)) (algaeBuf b))"
proof (induction ps arbitrary: b)
  case Nil
  then show ?case by simp
next
  case (Cons p ps)
  show ?case
  proof (cases "ptype p = None")
    case True
    let ?b = "emit p b"
    let ?n = "length (filter (\<lambda>p. ptype p = None) ps)"
    let ?vs = "map make_dummy (filter (\<lambda>p. ptype p = None) ps)"
    have b1: "algaeIdx ?b = Suc (algaeIdx b)"
      "algaeBuf ?b = (algaeBuf b)[algaeIdx b := make_dummy p]"
      using True by (simp_all add: emit_undefined)
    have d: "drop (Suc (algaeIdx b) + ?n) ((algaeBuf b)[algaeIdx b := make_dummy p])
        = drop (Suc (algaeIdx b) + ?n) (algaeBuf b)"
      by (rule drop_update_cancel) simp
    have t: "take (length (algaeBuf b))
          (take (Suc (algaeIdx b)) ((algaeBuf b)[algaeIdx b := make_dummy p]) @ rest)
        = take (length (algaeBuf b)) (take (algaeIdx b) (algaeBuf b) @ make_dummy p # rest)" for rest
    proof (cases "algaeIdx b < length (algaeBuf b)")
      case True
      then show ?thesis by (simp add: take_Suc_conv_app_nth)
    next
      case False
      then show ?thesis by (simp add: list_update_beyond)
    qed
    have "algaeBuf (foldl (\<lambda>b p. emit p b) b (p # ps)) = algaeBuf (foldl (\<lambda>b p. emit p b) ?b ps)"
      by simp
    also have "\<dots> = take (length (algaeBuf ?b))
        (take (algaeIdx ?b) (algaeBuf ?b) @ ?vs @ drop (algaeIdx ?b + ?n) (algaeBuf ?b))"
      by (rule Cons.IH)
    also have "\<dots> = take (length (algaeBuf b))
        (take (Suc (algaeIdx b)) ((algaeBuf b)[algaeIdx b := make_dummy p])
           @ (?vs @ drop (Suc (algaeIdx b) + ?n) (algaeBuf b)))"
      by (simp only: b1 d length_list_update)
    also have "\<dots> = take (length (algaeBuf b))
        (take (algaeIdx b) (algaeBuf b)
           @ make_dummy p # (?vs @ drop (Suc (algaeIdx b) + ?n) (algaeBuf b)))"
      by (rule t)
    also have "\<dots> = take (length (algaeBuf b))
       (take (algaeIdx b) (algaeBuf b) @ map make_dummy (filter (\<lambda>p. ptype p = None) (p # ps))
          @ drop (algaeIdx b + length (filter (\<lambda>p. ptype p = None) (p # ps))) (algaeBuf b))"
      using True by (simp del: take_append)
    finally show ?thesis .
  next
    case False
    then have f: "filter (\<lambda>p. ptype p = None) (p # ps) = filter (\<lambda>p. ptype p = None) ps"
      by simp
    note e = emit_defined_algae[OF False, of b]
    show ?thesis unfolding f using Cons.IH[of "emit p b"] by (simp add: e)
  qed
qed

lemma emit_sediment:
  "sedimentBuf (foldl (\<lambda>b p. emit p b) b ps) = sedimentBuf b
   \<and> sedimentIdx (foldl (\<lambda>b p. emit p b) b ps) = sedimentIdx b"
proof (induction ps arbitrary: b)
  case Nil
  then show ?case by simp
next
  case (Cons p ps)
  have "sedimentBuf (emit p b) = sedimentBuf b \<and> sedimentIdx (emit p b) = sedimentIdx b"
    by (simp add: emit_def Let_def ALGAE_def SEDIMENT_def)
  with Cons.IH[of "emit p b"] show ?case by simp
qed

lemma ptype_init_items: "map ptype (fst (init_items is g)) = map type_of_index is"
proof (induction "is" arbitrary: g)
  case Nil
  then show ?case by simp
next
  case (Cons i "is")
  have "ptype (fst (new_particle i g)) = type_of_index i" by (simp add: new_particle_def Let_def)
  with Cons.IH[of "snd (new_particle i g)"] show ?case
    by (simp add: split_beta Let_def)
qed

lemma filter_upt_all: "(\<And>i. a \<le> i \<Longrightarrow> i < b \<Longrightarrow> P i) \<Longrightarrow> filter P [a..<b] = [a..<b]"
  by (rule filter_True) simp

lemma filter_upt_none: "(\<And>i. a \<le> i \<Longrightarrow> i < b \<Longrightarrow> \<not> P i) \<Longrightarrow> filter P [a..<b] = []"
  by (rule filter_False) simp

lemma upt_bands:
  "[0..<total] = [0..<COUNT_WATER] @ [COUNT_WATER..<COUNT_WATER + COUNT_PLASTIC]
     @ [COUNT_WATER + COUNT_PLASTIC..<COUNT_WATER + COUNT_PLASTIC + COUNT_ALGAE]
     @ [COUNT_WATER + COUNT_PLASTIC + COUNT_ALGAE..<COUNT_WATER + COUNT_PLASTIC + COUNT_ALGAE + COUNT_SEDIMENT]"
proof -
  have "[0..<total] = [0..<COUNT_WATER + COUNT_PLASTIC + COUNT_ALGAE]
     @ [COUNT_WATER + COUNT_PLASTIC + COUNT_ALGAE..<COUNT_WATER + COUNT_PLASTIC + COUNT_ALGAE + COUNT_SEDIMENT]"
    unfolding total_def by (rule upt_add_eq_append) (rule le0)
  also have "[0..<COUNT_WATER + COUNT_PLASTIC + COUNT_ALGAE] = [0..<COUNT_WATER + COUNT_PLASTIC]
     @ [COUNT_WATER + COUNT_PLASTIC..<COUNT_WATER + COUNT_PLASTIC + COUNT_ALGAE]"
    by (rule upt_add_eq_append) (rule le0)
  also have "[0..<COUNT_WATER + COUNT_PLASTIC] = [0..<COUNT_WATER] @ [COUNT_WATER..<COUNT_WATER + COUNT_PLASTIC]"
    by (rule upt_add_eq_append) (rule le0)
  finally show ?thesis by (simp only: append_assoc)
qed

lemma type_of_index_bands:
  "i < COUNT_WATER \<Longrightarrow> type_of_index i = Some WATER"
  "COUNT_WATER \<le> i \<Longrightarrow> i < COUNT_WATER + COUNT_PLASTIC \<Longrightarrow> type_of_index i = Some MICROPLASTIC"
  "COUNT_WATER + COUNT_PLASTIC \<le> i \<Longrightarrow> type_of_index i = None"
  by (auto simp add: type_of_index_def ALGAE_def SEDIMENT_def)

lemma count_types:
  "length (filter (\<lambda>i. type_of_index i = Some WATER) [0..<total]) = COUNT_WATER"
  "length (filter (\<lambda>i. type_of_index i = Some MICROPLASTIC) [0..<total]) = COUNT_PLASTIC"
  "length (filter (\<lambda>i. type_of_index i = None) [0..<total]) = COUNT_ALGAE + COUNT_SEDIMENT"
proof -
  have w: "filter (\<lambda>i. type_of_index i = T) [0..<COUNT_WATER]
      = (if T = Some WATER then [0..<COUNT_WATER] else [])" for T
    by (auto intro!: filter_upt_all filter_upt_none simp: type_of_index_bands)
  have p: "filter (\<lambda>i. type_of_index i = T) [COUNT_WATER..<COUNT_WATER + COUNT_PLASTIC] =
    (if T = Some MICROPLASTIC then [COUNT_WATER..<COUNT_WATER + COUNT_PLASTIC] else [])" for T
    by (auto intro!: filter_upt_all filter_upt_none simp: type_of_index_bands)
  have a: "filter (\<lambda>i. type_of_index i = T)
        [COUNT_WATER + COUNT_PLASTIC..<COUNT_WATER + COUNT_PLASTIC + COUNT_ALGAE] =
    (if T = None then [COUNT_WATER + COUNT_PLASTIC..<COUNT_WATER + COUNT_PLASTIC + COUNT_ALGAE]
     else [])" for T
    by (auto intro!: filter_upt_all filter_upt_none simp: type_of_index_bands)
  have s: "filter (\<lambda>i. type_of_index i = T)
        [COUNT_WATER + COUNT_PLASTIC + COUNT_ALGAE..<
         COUNT_WATER + COUNT_PLASTIC + COUNT_ALGAE + COUNT_SEDIMENT] =
    (if T = None
     then [COUNT_WATER + COUNT_PLASTIC + COUNT_ALGAE..<
           COUNT_WATER + COUNT_PLASTIC + COUNT_ALGAE + COUNT_SEDIMENT]
     else [])" for T
    by (auto intro!: filter_upt_all filter_upt_none simp: type_of_index_bands)
  show "length (filter (\<lambda>i. type_of_index i = Some WATER) [0..<total]) = COUNT_WATER"
    "length (filter (\<lambda>i. type_of_index i = Some MICROPLASTIC) [0..<total]) = COUNT_PLASTIC"
    "length (filter (\<lambda>i. type_of_index i = None) [0..<total]) = COUNT_ALGAE + COUNT_SEDIMENT"
    unfolding upt_bands filter_append w p a s by simp_all
qed

lemma emit_idx:
  "waterIdx (foldl (\<lambda>b p. emit p b) b ps)
     = waterIdx b + length (filter (\<lambda>p. ptype p = Some WATER) ps)"
  "plasticIdx (foldl (\<lambda>b p. emit p b) b ps)
     = plasticIdx b + length (filter (\<lambda>p. ptype p = Some MICROPLASTIC) ps)"
  "algaeIdx (foldl (\<lambda>b p. emit p b) b ps)
     = algaeIdx b + length (filter (\<lambda>p. ptype p = None) ps)"
  by (induction ps arbitrary: b; auto simp add: emit_def Let_def ALGAE_def SEDIMENT_def)+

lemma emit_length:
  "length (waterBuf (foldl (\<lambda>b p. emit p b) b ps)) = length (waterBuf b)"
  "length (plasticBuf (foldl (\<lambda>b p. emit p b) b ps)) = length (plasticBuf b)"
  "length (algaeBuf (foldl (\<lambda>b p. emit p b) b ps)) = length (algaeBuf b)"
  "length (sedimentBuf (foldl (\<lambda>b p. emit p b) b ps)) = length (sedimentBuf b)"
  by (induction ps arbitrary: b; simp add: emit_def Let_def setMatrixAt_def)+

lemma count_by_type:
  "length (filter (\<lambda>p. f p = T) ps) = length (filter (\<lambda>t. t = T) (map f ps))"
  by (induction ps) simp_all

lemma population_counts:
  assumes "map ptype ps = map type_of_index [0..<total]"
  shows "length (filter (\<lambda>p. ptype p = Some WATER) ps) = COUNT_WATER"
    and "length (filter (\<lambda>p. ptype p = Some MICROPLASTIC) ps) = COUNT_PLASTIC"
    and "length (filter (\<lambda>p. ptype p = None) ps) = COUNT_ALGAE + COUNT_SEDIMENT"
proof -
  have "length (filter (\<lambda>p. ptype p = T) ps)
      = length (filter (\<lambda>i. type_of_index i = T) [0..<total])" for T
    by (simp only: count_by_type[of ptype] count_by_type[of type_of_index] assms)
  then show "length (filter (\<lambda>p. ptype p = Some WATER) ps) = COUNT_WATER"
    and "length (filter (\<lambda>p. ptype p = Some MICROPLASTIC) ps) = COUNT_PLASTIC"
    and "length (filter (\<lambda>p. ptype p = None) ps) = COUNT_ALGAE + COUNT_SEDIMENT"
    by (simp_all only: count_types)
qed

text \<open>What a frame keeps: the species along the array and the capacities of the meshes.\<close>

lemma useFrame_keeps:
  "map ptype (particles (useFrame pr delta w)) = map ptype (particles w)
   \<and> map_option length (waterMesh (useFrame pr delta w)) = map_option length (waterMesh w)
   \<and> map_option length (plasticMesh (useFrame pr delta w)) = map_option length (plasticMesh w)
   \<and> map_option length (algaeMesh (useFrame pr delta w)) = map_option length (algaeMesh w)
   \<and> map_option length (sedimentMesh (useFrame pr delta w)) = map_option length (sedimentMesh w)"
proof (cases "isRunning pr \<and> waterMesh w \<noteq> None \<and> plasticMesh w \<noteq> None \<and> algaeMesh w \<noteq> None
    \<and> sedimentMesh w \<noteq> None")
  case False
  then show ?thesis by (auto simp: useFrame_def split: option.splits)
next
  case True
  then obtain wm pm am sm where m: "waterMesh w = Some wm" "plasticMesh w = Some pm"
    "algaeMesh w = Some am" "sedimentMesh w = Some sm" by auto
  define b0 where "b0 = \<lparr>waterIdx = 0, plasticIdx = 0, algaeIdx = 0, sedimentIdx = 0,
                     waterBuf = wm, plasticBuf = pm, algaeBuf = am, sedimentBuf = sm\<rparr>"
  obtain ps' g' b' where r: "forEach_particle (flowRate pr) delta (particles w) (random w) b0 = (ps', g', b')"
    by (cases "forEach_particle (flowRate pr) delta (particles w) (random w) b0")
  note f = forEach_result[OF r]
  have u: "useFrame pr delta w = w\<lparr>particles := ps', random := g',
                waterMesh := Some (waterBuf b'), plasticMesh := Some (plasticBuf b'),
                algaeMesh := Some (algaeBuf b'), sedimentMesh := Some (sedimentBuf b')\<rparr>"
    using True m r by (simp add: useFrame_def b0_def[symmetric])
  show ?thesis unfolding u using f m by (simp add: emit_length b0_def)
qed

lemma frames_keeps:
  "map ptype (particles (frames ins w)) = map ptype (particles w)
   \<and> map_option length (waterMesh (frames ins w)) = map_option length (waterMesh w)
   \<and> map_option length (plasticMesh (frames ins w)) = map_option length (plasticMesh w)
   \<and> map_option length (algaeMesh (frames ins w)) = map_option length (algaeMesh w)
   \<and> map_option length (sedimentMesh (frames ins w)) = map_option length (sedimentMesh w)"
proof (induction ins arbitrary: w)
  case Nil
  then show ?case by simp
next
  case (Cons a ins)
  obtain pr delta where a: "a = (pr, delta)" by (cases a)
  show ?case unfolding a frames.simps
    using Cons.IH[of "useFrame pr delta w"] useFrame_keeps[of pr delta w] by simp
qed

text \<open>The callback never writes into the sediment mesh.\<close>

lemma useFrame_sediment: "sedimentMesh (useFrame pr delta w) = sedimentMesh w"
proof (cases "isRunning pr \<and> waterMesh w \<noteq> None \<and> plasticMesh w \<noteq> None \<and> algaeMesh w \<noteq> None
    \<and> sedimentMesh w \<noteq> None")
  case False
  then show ?thesis by (auto simp: useFrame_def split: option.splits)
next
  case True
  then obtain wm pm am sm where m: "waterMesh w = Some wm" "plasticMesh w = Some pm"
    "algaeMesh w = Some am" "sedimentMesh w = Some sm" by auto
  define b0 where "b0 = \<lparr>waterIdx = 0, plasticIdx = 0, algaeIdx = 0, sedimentIdx = 0,
                     waterBuf = wm, plasticBuf = pm, algaeBuf = am, sedimentBuf = sm\<rparr>"
  obtain ps' g' b' where
    r: "forEach_particle (flowRate pr) delta (particles w) (random w) b0 = (ps', g', b')"
    by (cases "forEach_particle (flowRate pr) delta (particles w) (random w) b0")
  have u: "useFrame pr delta w = w\<lparr>particles := ps', random := g',
                waterMesh := Some (waterBuf b'), plasticMesh := Some (plasticBuf b'),
                algaeMesh := Some (algaeBuf b'), sedimentMesh := Some (sedimentBuf b')\<rparr>"
    using True m r by (simp add: useFrame_def b0_def[symmetric])
  have "sedimentBuf b' = sm" using forEach_result[OF r] by (simp add: emit_sediment b0_def)
  then show ?thesis unfolding u by (simp add: m)
qed

lemma frames_sediment: "sedimentMesh (frames ins w) = sedimentMesh w"
proof (induction ins arbitrary: w)
  case Nil
  then show ?case by simp
next
  case (Cons a ins)
  obtain pr delta where a: "a = (pr, delta)" by (cases a)
  show ?case unfolding a frames.simps Cons.IH by (rule useFrame_sediment)
qed

text \<open>
  One running frame on a population with the species of the initial one and meshes of
  full capacity.
\<close>

lemma running_frame:
  assumes types: "map ptype (particles w) = map type_of_index [0..<total]"
    and meshes: "waterMesh w = Some wm" "plasticMesh w = Some pm" "algaeMesh w = Some am"
      "sedimentMesh w = Some sm"
    and sizes: "length wm = COUNT_WATER" "length pm = COUNT_PLASTIC" "length am = COUNT_ALGAE"
    and run: "isRunning pr"
    and loop: "forEach_particle (flowRate pr) delta (particles w) (random w)
       \<lparr>waterIdx = 0, plasticIdx = 0, algaeIdx = 0, sedimentIdx = 0,
        waterBuf = wm, plasticBuf = pm, algaeBuf = am, sedimentBuf = sm\<rparr> = (ps', g', b')"
  shows "particles (useFrame pr delta w) = ps'"
    and "waterMesh (useFrame pr delta w)
           = Some (map make_dummy (filter (\<lambda>p. ptype p = Some WATER) ps'))"
    and "plasticMesh (useFrame pr delta w)
           = Some (map make_dummy (filter (\<lambda>p. ptype p = Some MICROPLASTIC) ps'))"
    and "algaeMesh (useFrame pr delta w)
           = Some (take COUNT_ALGAE (map make_dummy (filter (\<lambda>p. ptype p = None) ps')))"
    and "length (filter (\<lambda>p. ptype p = Some WATER) ps') = COUNT_WATER"
    and "length (filter (\<lambda>p. ptype p = Some MICROPLASTIC) ps') = COUNT_PLASTIC"
    and "length (filter (\<lambda>p. ptype p = None) ps') = COUNT_ALGAE + COUNT_SEDIMENT"
    and "waterIdx b' = COUNT_WATER" and "plasticIdx b' = COUNT_PLASTIC"
    and "algaeIdx b' = COUNT_ALGAE + COUNT_SEDIMENT" and "sedimentIdx b' = 0"
proof -
  let ?b0 = "\<lparr>waterIdx = 0, plasticIdx = 0, algaeIdx = 0, sedimentIdx = 0,
        waterBuf = wm, plasticBuf = pm, algaeBuf = am, sedimentBuf = sm\<rparr>"
  note f = forEach_result[OF loop]
  have t: "map ptype ps' = map type_of_index [0..<total]" using f types by simp
  note c = population_counts[OF t]
  show u: "particles (useFrame pr delta w) = ps'"
    using run meshes loop by (simp add: useFrame_def)
  show "length (filter (\<lambda>p. ptype p = Some WATER) ps') = COUNT_WATER"
    and "length (filter (\<lambda>p. ptype p = Some MICROPLASTIC) ps') = COUNT_PLASTIC"
    and "length (filter (\<lambda>p. ptype p = None) ps') = COUNT_ALGAE + COUNT_SEDIMENT"
    by (rule c)+
  show "waterIdx b' = COUNT_WATER" and "plasticIdx b' = COUNT_PLASTIC"
    and "algaeIdx b' = COUNT_ALGAE + COUNT_SEDIMENT"
    using f c by (simp_all add: emit_idx)
  show "sedimentIdx b' = 0" using f by (simp add: emit_sediment)
  have "waterBuf b' = map make_dummy (filter (\<lambda>p. ptype p = Some WATER) ps')"
    using emit_water[of ?b0 ps'] f c sizes by simp
  then show "waterMesh (useFrame pr delta w)
      = Some (map make_dummy (filter (\<lambda>p. ptype p = Some WATER) ps'))"
    using run meshes loop by (simp add: useFrame_def)
  have "plasticBuf b' = map make_dummy (filter (\<lambda>p. ptype p = Some MICROPLASTIC) ps')"
    using emit_plastic[of ?b0 ps'] f c sizes by simp
  then show "plasticMesh (useFrame pr delta w)
      = Some (map make_dummy (filter (\<lambda>p. ptype p = Some MICROPLASTIC) ps'))"
    using run meshes loop by (simp add: useFrame_def)
  have "algaeBuf b' = take COUNT_ALGAE (map make_dummy (filter (\<lambda>p. ptype p = None) ps'))"
    using emit_algae[of ?b0 ps'] f c sizes by simp
  then show "algaeMesh (useFrame pr delta w)
      = Some (take COUNT_ALGAE (map make_dummy (filter (\<lambda>p. ptype p = None) ps')))"
    using run meshes loop by (simp add: useFrame_def)
qed

lemma mounted_state:
  "map ptype (particles (mounted g fill)) = map type_of_index [0..<total]"
  "map_option length (waterMesh (mounted g fill)) = Some COUNT_WATER"
  "map_option length (plasticMesh (mounted g fill)) = Some COUNT_PLASTIC"
  "map_option length (algaeMesh (mounted g fill)) = Some COUNT_ALGAE"
  "map_option length (sedimentMesh (mounted g fill)) = Some COUNT_SEDIMENT"
  using ptype_init_items[of "[0..<total]" g]
  by (simp_all add: mounted_def init_particles_def split_beta Let_def)




lemma count_mset: "mset xs = mset ys \<Longrightarrow> length (filter P xs) = length (filter P ys)"
  by (metis mset_filter size_mset)

lemma poses_mset:
  "mset qs' = mset qs \<Longrightarrow> mset (map f (filter P qs')) = mset (map f (filter P qs))"
  by (simp only: mset_map mset_filter)

lemma ptype_private:
  "map ptype (map (\<lambda>(p, d). fst (update_particle fr delta p (d @- t))) pds) = map ptype (map fst pds)"
  by (induction pds) (auto simp: ptype_update)

text \<open>
  The write of a particle depends on the particle through its type and its transform only.
\<close>

lemma emit_reads: "ptype p = ptype q \<Longrightarrow> make_dummy p = make_dummy q \<Longrightarrow> emit p b = emit q b"
  by (simp add: emit_def Let_def)

text \<open>
  What a mesh keeps of the transforms written to it does depend on the order once the
  writes outnumber its capacity: of two particles of type \<open>undefined\<close> and an algae mesh of
  capacity 1, the mesh keeps the transform of the one that comes first.
\<close>

lemma over_capacity_order_matters:
  "algaeBuf (snd (snd (forEach_particle 1 0.1
      [\<lparr>position = \<lparr>vec_x = 0, vec_y = 0, vec_z = 20\<rparr>,
        velocity = \<lparr>vec_x = 0, vec_y = 0, vec_z = - 0.5\<rparr>,
        ptype = None, rotation = \<lparr>eul_x = 0, eul_y = 0, eul_z = 0\<rparr>, rotationSpeed = 0,
        filtered = False\<rparr>,
       \<lparr>position = \<lparr>vec_x = 1, vec_y = 0, vec_z = 20\<rparr>,
        velocity = \<lparr>vec_x = 0, vec_y = 0, vec_z = - 0.5\<rparr>,
        ptype = None, rotation = \<lparr>eul_x = 0, eul_y = 0, eul_z = 0\<rparr>, rotationSpeed = 0,
        filtered = False\<rparr>]
      (sconst 0)
      \<lparr>waterIdx = 0, plasticIdx = 0, algaeIdx = 0, sedimentIdx = 0,
       waterBuf = [], plasticBuf = [], algaeBuf = [identity_transform], sedimentBuf = []\<rparr>)))
   \<noteq> algaeBuf (snd (snd (forEach_particle 1 0.1
      [\<lparr>position = \<lparr>vec_x = 1, vec_y = 0, vec_z = 20\<rparr>,
        velocity = \<lparr>vec_x = 0, vec_y = 0, vec_z = - 0.5\<rparr>,
        ptype = None, rotation = \<lparr>eul_x = 0, eul_y = 0, eul_z = 0\<rparr>, rotationSpeed = 0,
        filtered = False\<rparr>,
       \<lparr>position = \<lparr>vec_x = 0, vec_y = 0, vec_z = 20\<rparr>,
        velocity = \<lparr>vec_x = 0, vec_y = 0, vec_z = - 0.5\<rparr>,
        ptype = None, rotation = \<lparr>eul_x = 0, eul_y = 0, eul_z = 0\<rparr>, rotationSpeed = 0,
        filtered = False\<rparr>]
      (sconst 0)
      \<lparr>waterIdx = 0, plasticIdx = 0, algaeIdx = 0, sedimentIdx = 0,
       waterBuf = [], plasticBuf = [], algaeBuf = [identity_transform], sedimentBuf = []\<rparr>)))"
  by (simp add: update_particle_def advance_def step_defs needs_reset_def END_Z_def Let_def
      emit_undefined make_dummy_def)

text \<open>Bounds on the depth and on \<open>x\<close>.\<close>

lemma life_append: "life (xs @ ys) p = life ys (life xs p)"
  by (induction xs arbitrary: p) auto

lemma x_new: "sset g \<subseteq> {0..<1} \<Longrightarrow> \<bar>vec_x (position (fst (new_particle i g)))\<bar> \<le> 2.5"
proof -
  assume g: "sset g \<subseteq> {0..<1}"
  have "\<bar>cos (g !! 1 * pi * 2) * (g !! 0 * INITIAL_RADIUS)\<bar> \<le> 1 * (g !! 0 * INITIAL_RADIUS)"
    unfolding abs_mult using random_range[OF g, of 0]
    by (intro mult_mono) (auto simp: INITIAL_RADIUS_def)
  then show ?thesis using random_range[OF g, of 0]
    by (simp add: new_particle_def Let_def INITIAL_RADIUS_def)
qed

lemma x_reset: "sset g \<subseteq> {0..<1} \<Longrightarrow> \<bar>vec_x (position (fst (reset q g)))\<bar> \<le> 2.5"
proof -
  assume g: "sset g \<subseteq> {0..<1}"
  have "\<bar>cos (g !! 0 * pi * 2) * (g !! 1 * INITIAL_RADIUS)\<bar> \<le> 1 * (g !! 1 * INITIAL_RADIUS)"
    unfolding abs_mult using random_range[OF g, of 1]
    by (intro mult_mono) (auto simp: INITIAL_RADIUS_def)
  then show ?thesis using random_range[OF g, of 1]
    by (simp add: reset_def Let_def INITIAL_RADIUS_def)
qed

text \<open>What holds of a particle between frames.\<close>

lemma bounded_new:
  assumes g: "sset g \<subseteq> {0..<1}"
  shows "vec_z (velocity (fst (new_particle i g))) < 0"
    and "vec_z (position (fst (new_particle i g))) \<le> 30"
    and "- 15 \<le> vec_z (position (fst (new_particle i g)))"
    and "\<bar>vec_x (position (fst (new_particle i g)))\<bar> \<le> 5"
proof -
  show "vec_z (velocity (fst (new_particle i g))) < 0"
    using random_range[OF g, of 5] by (simp add: vz_new)
  show "vec_z (position (fst (new_particle i g))) \<le> 30"
    and "- 15 \<le> vec_z (position (fst (new_particle i g)))"
    using random_range[OF g, of 2] by (simp_all add: new_particle_def Let_def START_Z_def)
  show "\<bar>vec_x (position (fst (new_particle i g)))\<bar> \<le> 5"
    using x_new[OF g, of i] by simp
qed

lemma bounded_update:
  assumes g: "sset g \<subseteq> {0..<1}" and fr: "0 \<le> fr" and delta: "0 \<le> delta"
    and v: "vec_z (velocity p) < 0" and z: "vec_z (position p) \<le> 30"
  shows "vec_z (velocity (fst (update_particle fr delta p g))) < 0"
    and "vec_z (position (fst (update_particle fr delta p g))) \<le> 30"
    and "- 15 \<le> vec_z (position (fst (update_particle fr delta p g)))"
    and "\<bar>vec_x (position (fst (update_particle fr delta p g)))\<bar> \<le> 5"
proof -
  show "vec_z (velocity (fst (update_particle fr delta p g))) < 0"
    using v g by (rule vz_update_neg)
  have "0 \<le> fr * 10 * delta" using fr delta by simp
  then have "vec_z (velocity p) * (fr * 10 * delta) \<le> 0"
    using v by (intro mult_nonpos_nonneg) simp_all
  then have za: "vec_z (position (advance fr delta p)) \<le> 30"
    using z unfolding z_advance by linarith
  show "vec_z (position (fst (update_particle fr delta p g))) \<le> 30"
    using za random_range[OF g, of 2]
    by (simp add: update_particle_def Let_def reset_def START_Z_def)
  show "- 15 \<le> vec_z (position (fst (update_particle fr delta p g)))"
    using random_range[OF g, of 2]
    by (simp add: update_particle_def Let_def reset_def START_Z_def needs_reset_def END_Z_def)
  show "\<bar>vec_x (position (fst (update_particle fr delta p g)))\<bar> \<le> 5"
  proof (cases "needs_reset (advance fr delta p)")
    case True
    then show ?thesis using x_reset[OF g, of "advance fr delta p"]
      by (simp add: update_particle_def Let_def)
  next
    case False
    then show ?thesis by (simp add: update_particle_def Let_def needs_reset_def)
  qed
qed

lemma floor_update:
  assumes g: "sset g \<subseteq> {0..<1}"
  shows "- 15 \<le> vec_z (position (fst (update_particle fr delta p g)))"
    and "\<bar>vec_x (position (fst (update_particle fr delta p g)))\<bar> \<le> 5"
proof -
  show "- 15 \<le> vec_z (position (fst (update_particle fr delta p g)))"
    using random_range[OF g, of 2]
    by (simp add: update_particle_def Let_def reset_def START_Z_def needs_reset_def END_Z_def)
  show "\<bar>vec_x (position (fst (update_particle fr delta p g)))\<bar> \<le> 5"
  proof (cases "needs_reset (advance fr delta p)")
    case True
    then show ?thesis using x_reset[OF g, of "advance fr delta p"]
      by (simp add: update_particle_def Let_def)
  next
    case False
    then show ?thesis by (simp add: update_particle_def Let_def needs_reset_def)
  qed
qed

lemma distFromCenter_plane [simp]: "distFromCenter \<lparr>vec_x = 0, vec_y = b, vec_z = c\<rparr> = \<bar>b\<bar>"
  by (simp add: distFromCenter_def)

text \<open>
  A WATER particle in the plane \<open>x = 0\<close> that moves in that plane is only moved by a frame
  that leaves it above the interaction band, or that finds it permeated and does not take
  it below \<open>END_Z\<close>.
\<close>

lemma water_plane_step:
  assumes "ptype p = Some WATER" and "vec_x (position p) = 0" and "vec_x (velocity p) = 0"
    and "filtered p \<and> END_Z \<le> vec_z (position p) + vec_z (velocity p) * (fr * 10 * delta)
       \<or> 5 \<le> vec_z (position p) + vec_z (velocity p) * (fr * 10 * delta)"
  shows "fst (update_particle fr delta p g) =
      p\<lparr>position := \<lparr>vec_x = 0,
                      vec_y = vec_y (position p) + vec_y (velocity p) * (fr * 10 * delta),
                      vec_z = vec_z (position p) + vec_z (velocity p) * (fr * 10 * delta)\<rparr>\<rparr>"
  using assms
  by (auto simp add: update_particle_def advance_def step_defs needs_reset_def Let_def END_Z_def)

lemma water_plane_run:
  assumes "ptype p = Some WATER" and "vec_x (position p) = 0" and "vec_x (velocity p) = 0"
    and "vec_z (velocity p) * (fr * 10 * delta) \<le> 0"
    and "filtered p \<and> END_Z \<le> vec_z (position p)
            + real (length gs) * (vec_z (velocity p) * (fr * 10 * delta))
       \<or> 5 \<le> vec_z (position p) + real (length gs) * (vec_z (velocity p) * (fr * 10 * delta))"
  shows "life (map (\<lambda>g. (fr, delta, g)) gs) p =
      p\<lparr>position := \<lparr>vec_x = 0,
           vec_y = vec_y (position p) + real (length gs) * (vec_y (velocity p) * (fr * 10 * delta)),
           vec_z = vec_z (position p) + real (length gs) * (vec_z (velocity p) * (fr * 10 * delta))\<rparr>\<rparr>"
  using assms
proof (induction gs arbitrary: p)
  case Nil
  then show ?case by simp
next
  case (Cons g gs)
  let ?m = "fr * 10 * delta"
  let ?q = "p\<lparr>position := \<lparr>vec_x = 0,
                      vec_y = vec_y (position p) + vec_y (velocity p) * ?m,
                      vec_z = vec_z (position p) + vec_z (velocity p) * ?m\<rparr>\<rparr>"
  have n: "real (length gs) * (vec_z (velocity p) * ?m) \<le> 0"
    by (rule mult_nonneg_nonpos) (use Cons.prems(4) in simp_all)
  have s: "real (length (g # gs)) * (vec_z (velocity p) * ?m)
      = vec_z (velocity p) * ?m + real (length gs) * (vec_z (velocity p) * ?m)"
    by (simp add: algebra_simps)
  have one: "filtered p \<and> END_Z \<le> vec_z (position p) + vec_z (velocity p) * ?m
       \<or> 5 \<le> vec_z (position p) + vec_z (velocity p) * ?m"
    using Cons.prems(5) n unfolding s by linarith
  have u: "fst (update_particle fr delta p g) = ?q"
    using Cons.prems(1-3) one by (rule water_plane_step)
  have rest: "filtered ?q \<and> END_Z \<le> vec_z (position ?q)
            + real (length gs) * (vec_z (velocity ?q) * ?m)
       \<or> 5 \<le> vec_z (position ?q) + real (length gs) * (vec_z (velocity ?q) * ?m)"
    using Cons.prems(5) unfolding s by (simp add: add.assoc)
  have "life (map (\<lambda>g. (fr, delta, g)) gs) ?q =
      ?q\<lparr>position := \<lparr>vec_x = 0,
           vec_y = vec_y (position ?q) + real (length gs) * (vec_y (velocity ?q) * ?m),
           vec_z = vec_z (position ?q) + real (length gs) * (vec_z (velocity ?q) * ?m)\<rparr>\<rparr>"
    by (rule Cons.IH) (use Cons.prems rest in simp_all)
  then show ?case by (simp add: u algebra_simps)
qed

lemma atan2_up [simp]: "0 < b \<Longrightarrow> atan2 b 0 = pi / 2"
  by (simp add: atan2_def)

lemma snth_Stream_numeral: "(a ## s) !! numeral k = s !! pred_numeral k"
  by (simp add: numeral_eq_Suc)

lemma drifting_particle_eq:
  "drifting_particle =
     \<lparr>position = \<lparr>vec_x = 0, vec_y = 1, vec_z = 10\<rparr>,
      velocity = \<lparr>vec_x = 0, vec_y = 0.04, vec_z = - 0.5\<rparr>,
      ptype = Some WATER, rotation = \<lparr>eul_x = 0, eul_y = 0, eul_z = 0\<rparr>, rotationSpeed = 0,
      filtered = False\<rparr>"
  by (simp add: drifting_particle_def new_particle_def Let_def bounds_defs type_of_index_def
      COUNT_WATER_def snth_Stream_numeral)

lemma drifting_above_band:
  assumes "length gs = 12"
  shows "life (map (\<lambda>g. (1, 0.08, g)) gs) drifting_particle =
     \<lparr>position = \<lparr>vec_x = 0, vec_y = 1.384, vec_z = 5.2\<rparr>,
      velocity = \<lparr>vec_x = 0, vec_y = 0.04, vec_z = - 0.5\<rparr>,
      ptype = Some WATER, rotation = \<lparr>eul_x = 0, eul_y = 0, eul_z = 0\<rparr>, rotationSpeed = 0,
      filtered = False\<rparr>"
  unfolding drifting_particle_eq
  by (subst water_plane_run) (simp_all add: assms)

lemma drifting_through_wall:
  assumes "length gs = 4"
  shows "life (map (\<lambda>g. (1, 0.08, g)) gs)
     \<lparr>position = \<lparr>vec_x = 0, vec_y = 1.384, vec_z = 5.2\<rparr>,
      velocity = \<lparr>vec_x = 0, vec_y = 0.04, vec_z = - 0.5\<rparr>,
      ptype = Some WATER, rotation = \<lparr>eul_x = 0, eul_y = 0, eul_z = 0\<rparr>, rotationSpeed = 0,
      filtered = False\<rparr> =
     \<lparr>position = \<lparr>vec_x = 0, vec_y = 1.752, vec_z = 3.8244\<rparr>,
      velocity = \<lparr>vec_x = 0, vec_y = 0.24, vec_z = - 0.32805\<rparr>,
      ptype = Some WATER, rotation = \<lparr>eul_x = 0, eul_y = 0, eul_z = 0\<rparr>, rotationSpeed = 0,
      filtered = True\<rparr>"
proof -
  from assms obtain a b c d where gs: "gs = [a, b, c, d]"
    by (auto simp: length_Suc_conv numeral_eq_Suc)
  show ?thesis unfolding gs
    by (simp add: update_particle_def advance_def step_defs needs_reset_def currentConeRadius_def
        Let_def bounds_defs)
qed

lemma drifting_permeated:
  assumes "length gs = 71"
  shows "life (map (\<lambda>g. (1, 0.08, g)) gs)
     \<lparr>position = \<lparr>vec_x = 0, vec_y = 1.752, vec_z = 3.8244\<rparr>,
      velocity = \<lparr>vec_x = 0, vec_y = 0.24, vec_z = - 0.32805\<rparr>,
      ptype = Some WATER, rotation = \<lparr>eul_x = 0, eul_y = 0, eul_z = 0\<rparr>, rotationSpeed = 0,
      filtered = True\<rparr> =
     \<lparr>position = \<lparr>vec_x = 0, vec_y = 15.384, vec_z = - 14.80884\<rparr>,
      velocity = \<lparr>vec_x = 0, vec_y = 0.24, vec_z = - 0.32805\<rparr>,
      ptype = Some WATER, rotation = \<lparr>eul_x = 0, eul_y = 0, eul_z = 0\<rparr>, rotationSpeed = 0,
      filtered = True\<rparr>"
  by (subst water_plane_run) (simp_all add: END_Z_def assms)

lemma drifting_life:
  assumes "length gs = 87"
  shows "life (map (\<lambda>g. (1, 0.08, g)) gs) drifting_particle =
     \<lparr>position = \<lparr>vec_x = 0, vec_y = 15.384, vec_z = - 14.80884\<rparr>,
      velocity = \<lparr>vec_x = 0, vec_y = 0.24, vec_z = - 0.32805\<rparr>,
      ptype = Some WATER, rotation = \<lparr>eul_x = 0, eul_y = 0, eul_z = 0\<rparr>, rotationSpeed = 0,
      filtered = True\<rparr>"
proof -
  have "drop 12 gs = take 4 (drop 12 gs) @ drop 4 (drop 12 gs)"
    by (simp only: append_take_drop_id)
  also have "drop 4 (drop 12 gs) = drop 16 gs" by simp
  finally have "take 12 gs @ drop 12 gs = take 12 gs @ take 4 (drop 12 gs) @ drop 16 gs"
    by (simp only:)
  then have gs: "gs = take 12 gs @ take 4 (drop 12 gs) @ drop 16 gs"
    by (simp only: append_take_drop_id)
  have l: "length (take 12 gs) = 12" "length (take 4 (drop 12 gs)) = 4" "length (drop 16 gs) = 71"
    using assms by simp_all
  show ?thesis
    by (subst gs)
       (simp only: map_append life_append drifting_above_band[OF l(1)]
          drifting_through_wall[OF l(2)] drifting_permeated[OF l(3)])
qed

text \<open>From single particles to the state of the component.\<close>

lemma sset_sdrop_subset: "sset (sdrop n s) \<subseteq> sset s"
proof
  fix a assume "a \<in> sset (sdrop n s)"
  then obtain k where "a = sdrop n s !! k" by (auto simp: sset_range)
  then have "a = s !! (n + k)" by (simp add: sdrop_snth)
  then show "a \<in> sset s" by simp
qed

lemma update_random: "sset (snd (update_particle fr delta p g)) \<subseteq> sset g"
  by (simp add: update_particle_def Let_def reset_def sset_sdrop_subset)

lemma new_random: "sset (snd (new_particle i g)) \<subseteq> sset g"
  by (simp add: new_particle_def Let_def sset_sdrop_subset)

text \<open>
  A property of single particles that every update keeps, under random numbers from \<open>S\<close>,
  is kept by the loop, by the callback and by the render loop.
\<close>

lemma forEach_keeps:
  assumes step: "\<And>p g. I p \<Longrightarrow> sset g \<subseteq> S \<Longrightarrow> I (fst (update_particle fr delta p g))"
    and "\<forall>p \<in> set ps. I p" and "sset g \<subseteq> S"
    and "forEach_particle fr delta ps g b = (ps', g', b')"
  shows "(\<forall>p \<in> set ps'. I p) \<and> sset g' \<subseteq> S"
  using assms(2-)
proof (induction ps arbitrary: g b ps' g' b')
  case Nil
  then show ?case by simp
next
  case (Cons p ps)
  obtain q g1 where u: "update_particle fr delta p g = (q, g1)"
    by (cases "update_particle fr delta p g")
  obtain qs g2 b2 where r: "forEach_particle fr delta ps g1 (emit q b) = (qs, g2, b2)"
    by (cases "forEach_particle fr delta ps g1 (emit q b)")
  from Cons.prems(3) u r have e: "ps' = q # qs" "g' = g2" by simp_all
  have q: "I q" using step[of p g] Cons.prems(1,2) u by simp
  have g1: "sset g1 \<subseteq> S" using update_random[of fr delta p g] Cons.prems(2) u by auto
  from Cons.IH[OF _ g1 r] Cons.prems(1) q show ?case by (simp add: e)
qed

lemma useFrame_keeps_particles:
  assumes step: "\<And>p g. I p \<Longrightarrow> sset g \<subseteq> S \<Longrightarrow> I (fst (update_particle (flowRate pr) delta p g))"
    and "\<forall>p \<in> set (particles w). I p" and "sset (random w) \<subseteq> S"
  shows "(\<forall>p \<in> set (particles (useFrame pr delta w)). I p) \<and> sset (random (useFrame pr delta w)) \<subseteq> S"
proof (cases "isRunning pr \<and> waterMesh w \<noteq> None \<and> plasticMesh w \<noteq> None \<and> algaeMesh w \<noteq> None
    \<and> sedimentMesh w \<noteq> None")
  case False
  then show ?thesis using assms(2,3) by (auto simp: useFrame_def split: option.splits)
next
  case True
  then obtain wm pm am sm where m: "waterMesh w = Some wm" "plasticMesh w = Some pm"
    "algaeMesh w = Some am" "sedimentMesh w = Some sm" by auto
  define b0 where "b0 = \<lparr>waterIdx = 0, plasticIdx = 0, algaeIdx = 0, sedimentIdx = 0,
                     waterBuf = wm, plasticBuf = pm, algaeBuf = am, sedimentBuf = sm\<rparr>"
  obtain ps' g' b' where
    r: "forEach_particle (flowRate pr) delta (particles w) (random w) b0 = (ps', g', b')"
    by (cases "forEach_particle (flowRate pr) delta (particles w) (random w) b0")
  have u: "useFrame pr delta w = w\<lparr>particles := ps', random := g',
                waterMesh := Some (waterBuf b'), plasticMesh := Some (plasticBuf b'),
                algaeMesh := Some (algaeBuf b'), sedimentMesh := Some (sedimentBuf b')\<rparr>"
    using True m r by (simp add: useFrame_def b0_def[symmetric])
  from forEach_keeps[of I S "flowRate pr" delta, OF step assms(2,3) r]
  show ?thesis unfolding u by simp
qed

lemma frames_keep_particles:
  assumes step: "\<And>pr delta p g. (pr, delta) \<in> set ins \<Longrightarrow> I p \<Longrightarrow> sset g \<subseteq> S \<Longrightarrow>
      I (fst (update_particle (flowRate pr) delta p g))"
    and "\<forall>p \<in> set (particles w). I p" and "sset (random w) \<subseteq> S"
  shows "(\<forall>p \<in> set (particles (frames ins w)). I p) \<and> sset (random (frames ins w)) \<subseteq> S"
  using assms
proof (induction ins arbitrary: w)
  case Nil
  then show ?case by simp
next
  case (Cons a ins)
  obtain pr delta where a: "a = (pr, delta)" by (cases a)
  have here: "I (fst (update_particle (flowRate pr) delta p g))" if "I p" "sset g \<subseteq> S" for p g
    by (rule Cons.prems(1)[OF _ that]) (simp add: a)
  have later: "I (fst (update_particle (flowRate pr') delta' p g))"
    if "(pr', delta') \<in> set ins" "I p" "sset g \<subseteq> S" for pr' delta' p g
    by (rule Cons.prems(1)[OF _ that(2,3)]) (simp add: that(1))
  have one: "(\<forall>p \<in> set (particles (useFrame pr delta w)). I p)
      \<and> sset (random (useFrame pr delta w)) \<subseteq> S"
    using here Cons.prems(2,3) by (rule useFrame_keeps_particles[where I = I and S = S])
  have "(\<forall>p \<in> set (particles (frames ins (useFrame pr delta w))). I p)
      \<and> sset (random (frames ins (useFrame pr delta w))) \<subseteq> S"
    using later one[THEN conjunct1] one[THEN conjunct2] by (rule Cons.IH)
  then show ?case unfolding a frames.simps .
qed

lemma init_items_keep:
  assumes new: "\<And>i g. sset g \<subseteq> S \<Longrightarrow> I (fst (new_particle i g))" and "sset g \<subseteq> S"
  shows "(\<forall>p \<in> set (fst (init_items is g)). I p) \<and> sset (snd (init_items is g)) \<subseteq> S"
  using assms(2)
proof (induction "is" arbitrary: g)
  case Nil
  then show ?case by simp
next
  case (Cons i "is")
  have g1: "sset (snd (new_particle i g)) \<subseteq> S" using new_random[of i g] Cons.prems by auto
  from Cons.IH[OF g1] new[OF Cons.prems, of i] show ?case by (simp add: split_beta Let_def)
qed

lemma mounted_particles:
  assumes "\<And>i g. sset g \<subseteq> S \<Longrightarrow> I (fst (new_particle i g))" and "sset g \<subseteq> S"
  shows "(\<forall>p \<in> set (particles (mounted g fill)). I p) \<and> sset (random (mounted g fill)) \<subseteq> S"
  using init_items_keep[of S I g "[0..<total]", OF assms]
  by (simp add: mounted_def init_particles_def split_beta Let_def)

lemma particles_in_life:
  assumes "sset g \<subseteq> {0..<1}" and "p \<in> set (particles (frames ins (mounted g fill)))"
  shows "in_life p"
proof -
  have m: "(\<forall>p \<in> set (particles (mounted g fill)). in_life p)
      \<and> sset (random (mounted g fill)) \<subseteq> {0..<1}"
  proof (rule mounted_particles[where I = in_life and S = "{0..<1}"])
    show "in_life (fst (new_particle i g'))" if "sset g' \<subseteq> {0..<1}" for i g'
      using that by (rule in_life.spawned)
  qed (rule assms(1))
  have "(\<forall>p \<in> set (particles (frames ins (mounted g fill))). in_life p)
      \<and> sset (random (frames ins (mounted g fill))) \<subseteq> {0..<1}"
  proof (rule frames_keep_particles[where I = in_life and S = "{0..<1}"])
    show "in_life (fst (update_particle (flowRate pr) delta q g'))"
      if "in_life q" "sset g' \<subseteq> {0..<1}" for pr delta q g'
      using that by (rule in_life.updated)
    show "\<forall>p \<in> set (particles (mounted g fill)). in_life p" using m by (rule conjunct1)
    show "sset (random (mounted g fill)) \<subseteq> {0..<1}" using m by (rule conjunct2)
  qed
  then show ?thesis using assms(2) by blast
qed

lemma first_particle:
  "particles (mounted g fill) \<noteq> [] \<and> hd (particles (mounted g fill)) = fst (new_particle 0 g)"
proof -
  have "0 < total" by (simp add: total_def count_defs)
  then have "[0..<total] = 0 # [Suc 0..<total]" by (rule upt_conv_Cons)
  then show ?thesis by (simp add: mounted_def init_particles_def split_beta Let_def)
qed

lemma mounted_meshes:
  "waterMesh (mounted g fill) \<noteq> None \<and> plasticMesh (mounted g fill) \<noteq> None
   \<and> algaeMesh (mounted g fill) \<noteq> None \<and> sedimentMesh (mounted g fill) \<noteq> None"
  by (simp add: mounted_def split_beta Let_def)

lemma useFrame_hd:
  assumes "isRunning pr" and "particles w \<noteq> []"
    and "waterMesh w \<noteq> None \<and> plasticMesh w \<noteq> None \<and> algaeMesh w \<noteq> None \<and> sedimentMesh w \<noteq> None"
  shows "hd (particles (useFrame pr delta w)) =
           fst (update_particle (flowRate pr) delta (hd (particles w)) (random w))"
proof -
  obtain p ps where ps: "particles w = p # ps" using assms(2) by (cases "particles w") auto
  from assms(3) obtain wm pm am sm where m: "waterMesh w = Some wm" "plasticMesh w = Some pm"
    "algaeMesh w = Some am" "sedimentMesh w = Some sm" by auto
  show ?thesis using assms(1) by (simp add: useFrame_def m ps split_beta Let_def)
qed

lemma useFrame_stays:
  assumes "particles w \<noteq> []"
    and "waterMesh w \<noteq> None \<and> plasticMesh w \<noteq> None \<and> algaeMesh w \<noteq> None \<and> sedimentMesh w \<noteq> None"
  shows "particles (useFrame pr delta w) \<noteq> []"
    and "waterMesh (useFrame pr delta w) \<noteq> None \<and> plasticMesh (useFrame pr delta w) \<noteq> None
       \<and> algaeMesh (useFrame pr delta w) \<noteq> None \<and> sedimentMesh (useFrame pr delta w) \<noteq> None"
proof -
  note k = useFrame_keeps[of pr delta w]
  from k have "map ptype (particles (useFrame pr delta w)) = map ptype (particles w)" by simp
  then show "particles (useFrame pr delta w) \<noteq> []" using assms(1) by (metis map_is_Nil_conv)
  show "waterMesh (useFrame pr delta w) \<noteq> None \<and> plasticMesh (useFrame pr delta w) \<noteq> None
       \<and> algaeMesh (useFrame pr delta w) \<noteq> None \<and> sedimentMesh (useFrame pr delta w) \<noteq> None"
    using k assms(2) by (metis option.map_disc_iff)
qed

text \<open>
  The first particle of the array through running frames with the same properties: it
  lives the life that those frames make, whatever the state of the random source is when
  the loop starts.
\<close>

lemma frames_hd:
  assumes "isRunning pr" and "particles w \<noteq> []"
    and "waterMesh w \<noteq> None \<and> plasticMesh w \<noteq> None \<and> algaeMesh w \<noteq> None \<and> sedimentMesh w \<noteq> None"
  shows "\<exists>gs. length gs = n \<and>
     hd (particles (frames (replicate n (pr, delta)) w)) =
       life (map (\<lambda>g. (flowRate pr, delta, g)) gs) (hd (particles w))"
  using assms(2,3)
proof (induction n arbitrary: w)
  case 0
  then show ?case by simp
next
  case (Suc n)
  note s = useFrame_stays[OF Suc.prems, of pr delta]
  from Suc.IH[OF s] obtain gs where gs: "length gs = n"
    "hd (particles (frames (replicate n (pr, delta)) (useFrame pr delta w))) =
       life (map (\<lambda>g. (flowRate pr, delta, g)) gs) (hd (particles (useFrame pr delta w)))"
    by blast
  have "length (random w # gs) = Suc n" using gs(1) by simp
  moreover have "hd (particles (frames (replicate (Suc n) (pr, delta)) w)) =
       life (map (\<lambda>g. (flowRate pr, delta, g)) (random w # gs)) (hd (particles w))"
    using gs(2) useFrame_hd[OF assms(1) Suc.prems, of delta] by simp
  ultimately show ?case by blast
qed

lemma first_in_frames:
  "hd (particles (frames ins (mounted g fill))) \<in> set (particles (frames ins (mounted g fill)))"
proof -
  have "map ptype (particles (frames ins (mounted g fill))) = map ptype (particles (mounted g fill))"
    using frames_keeps[of ins "mounted g fill"] by (rule conjunct1)
  then have "particles (frames ins (mounted g fill)) \<noteq> []"
    using first_particle[of g fill] by (metis map_is_Nil_conv)
  then show ?thesis by (rule hd_in_set)
qed

text \<open>The bounds on depth and \<open>x\<close> as a property of the state of the component.\<close>

lemma particles_bounded:
  assumes g: "sset g \<subseteq> {0..<1}"
    and ins: "\<forall>(pr, delta) \<in> set ins. 0 \<le> flowRate pr \<and> 0 \<le> delta"
    and p: "p \<in> set (particles (frames ins (mounted g fill)))"
  shows "vec_z (velocity p) < 0 \<and> vec_z (position p) \<le> 30
    \<and> - 15 \<le> vec_z (position p) \<and> \<bar>vec_x (position p)\<bar> \<le> 5"
proof -
  let ?I = "\<lambda>p. vec_z (velocity p) < 0 \<and> vec_z (position p) \<le> 30
    \<and> - 15 \<le> vec_z (position p) \<and> \<bar>vec_x (position p)\<bar> \<le> 5"
  have m: "(\<forall>p \<in> set (particles (mounted g fill)). ?I p)
      \<and> sset (random (mounted g fill)) \<subseteq> {0..<1}"
  proof (rule mounted_particles[where I = ?I and S = "{0..<1}"])
    show "?I (fst (new_particle i g'))" if "sset g' \<subseteq> {0..<1}" for i g'
      using bounded_new[OF that, of i] by blast
  qed (rule g)
  have "(\<forall>p \<in> set (particles (frames ins (mounted g fill))). ?I p)
      \<and> sset (random (frames ins (mounted g fill))) \<subseteq> {0..<1}"
  proof (rule frames_keep_particles[where I = ?I and S = "{0..<1}"])
    show "?I (fst (update_particle (flowRate pr) delta q g'))"
      if "(pr, delta) \<in> set ins" "?I q" "sset g' \<subseteq> {0..<1}" for pr delta q g'
    proof -
      from ins that(1) have n: "0 \<le> flowRate pr" "0 \<le> delta" by auto
      from that(2) have q: "vec_z (velocity q) < 0" "vec_z (position q) \<le> 30" by simp_all
      from bounded_update[OF that(3) n q] show ?thesis by blast
    qed
    show "\<forall>p \<in> set (particles (mounted g fill)). ?I p" using m by (rule conjunct1)
    show "sset (random (mounted g fill)) \<subseteq> {0..<1}" using m by (rule conjunct2)
  qed
  then show ?thesis using p by blast
qed

lemma particles_floor:
  assumes g: "sset g \<subseteq> {0..<1}"
    and p: "p \<in> set (particles (frames ins (mounted g fill)))"
  shows "- 15 \<le> vec_z (position p) \<and> \<bar>vec_x (position p)\<bar> \<le> 5"
proof -
  let ?I = "\<lambda>p. - 15 \<le> vec_z (position p) \<and> \<bar>vec_x (position p)\<bar> \<le> 5"
  have m: "(\<forall>p \<in> set (particles (mounted g fill)). ?I p)
      \<and> sset (random (mounted g fill)) \<subseteq> {0..<1}"
  proof (rule mounted_particles[where I = ?I and S = "{0..<1}"])
    show "?I (fst (new_particle i g'))" if "sset g' \<subseteq> {0..<1}" for i g'
      using bounded_new[OF that, of i] by blast
  qed (rule g)
  have "(\<forall>p \<in> set (particles (frames ins (mounted g fill))). ?I p)
      \<and> sset (random (frames ins (mounted g fill))) \<subseteq> {0..<1}"
  proof (rule frames_keep_particles[where I = ?I and S = "{0..<1}"])
    show "?I (fst (update_particle (flowRate pr) delta q g'))"
      if "sset g' \<subseteq> {0..<1}" for pr delta q g'
      using floor_update[OF that, of "flowRate pr" delta q] by blast
    show "\<forall>p \<in> set (particles (mounted g fill)). ?I p" using m by (rule conjunct1)
    show "sset (random (mounted g fill)) \<subseteq> {0..<1}" using m by (rule conjunct2)
  qed
  then show ?thesis using p by blast
qed

subsection \<open>The claims\<close>

text \<open>
  C1 does not hold of the component. In every frame with \<open>isRunning = true\<close>, in any state
  the mounted component can be in, the water mesh receives exactly the transforms of the
  500 WATER particles and the plastic mesh those of the 100 MICROPLASTIC particles, in
  array order. But \<open>ParticleType.ALGAE\<close> and \<open>ParticleType.SEDIMENT\<close> are the same value, and
  200 particles carry it: all of them are written to the algae mesh, whose running index
  ends at 200 while its capacity is 100, so that it keeps the transforms of the first 100
  of them; the sediment mesh receives nothing and still holds what it was created with.
\<close>

theorem C1_algae_mesh_takes_both_bands:
  assumes "isRunning pr"
    and "w = frames ins (mounted g fill)"
    and "w' = useFrame pr delta w"
  shows "waterMesh w' = Some (map make_dummy (filter (\<lambda>p. ptype p = Some WATER) (particles w')))
    \<and> length (filter (\<lambda>p. ptype p = Some WATER) (particles w')) = 500
    \<and> plasticMesh w'
        = Some (map make_dummy (filter (\<lambda>p. ptype p = Some MICROPLASTIC) (particles w')))
    \<and> length (filter (\<lambda>p. ptype p = Some MICROPLASTIC) (particles w')) = 100
    \<and> ALGAE = SEDIMENT
    \<and> length (filter (\<lambda>p. ptype p = ALGAE) (particles w')) = 200
    \<and> algaeMesh w'
        = Some (take 100 (map make_dummy (filter (\<lambda>p. ptype p = ALGAE) (particles w'))))
    \<and> sedimentMesh w' = Some (replicate COUNT_SEDIMENT fill)
    \<and> (case (waterMesh w, plasticMesh w, algaeMesh w, sedimentMesh w) of
         (Some wm, Some pm, Some am, Some sm) \<Rightarrow>
           length wm = 500 \<and> length pm = 100 \<and> length am = 100 \<and> length sm = 100 \<and>
           (case forEach_particle (flowRate pr) delta (particles w) (random w)
                   \<lparr>waterIdx = 0, plasticIdx = 0, algaeIdx = 0, sedimentIdx = 0,
                    waterBuf = wm, plasticBuf = pm, algaeBuf = am, sedimentBuf = sm\<rparr> of
              (ps', g', b') \<Rightarrow>
                waterIdx b' = 500 \<and> plasticIdx b' = 100 \<and> algaeIdx b' = 200 \<and> sedimentIdx b' = 0)
       | _ \<Rightarrow> False)"
proof -
  note k = frames_keeps[of ins "mounted g fill", folded assms(2), unfolded mounted_state]
  from k obtain wm pm am sm where
    meshes: "waterMesh w = Some wm" "plasticMesh w = Some pm" "algaeMesh w = Some am"
      "sedimentMesh w = Some sm"
    and sizes: "length wm = COUNT_WATER" "length pm = COUNT_PLASTIC" "length am = COUNT_ALGAE"
    and sed: "length sm = COUNT_SEDIMENT"
    by auto
  have types: "map ptype (particles w) = map type_of_index [0..<total]" using k by simp
  obtain ps' g' b' where loop: "forEach_particle (flowRate pr) delta (particles w) (random w)
       \<lparr>waterIdx = 0, plasticIdx = 0, algaeIdx = 0, sedimentIdx = 0,
        waterBuf = wm, plasticBuf = pm, algaeBuf = am, sedimentBuf = sm\<rparr> = (ps', g', b')"
    using prod_cases3 by blast
  note r = running_frame[OF types meshes sizes assms(1) loop, folded assms(3)]
  have n: "COUNT_WATER = 500" "COUNT_PLASTIC = 100" "COUNT_ALGAE = 100" "COUNT_SEDIMENT = 100"
    "COUNT_ALGAE + COUNT_SEDIMENT = 200"
    by (simp_all add: count_defs)
  have s: "sedimentMesh w' = Some (replicate COUNT_SEDIMENT fill)"
    unfolding assms(3) assms(2) useFrame_sediment frames_sediment
    by (simp add: mounted_def split_beta Let_def)
  have a: "ALGAE = SEDIMENT" by (simp add: ALGAE_def SEDIMENT_def)
  note c = r(5)[unfolded n] r(6)[unfolded n] r(7)[unfolded n(5)] r(8)[unfolded n]
    r(9)[unfolded n] r(10)[unfolded n(5)] r(11)
  note l = sizes(1)[unfolded n] sizes(2)[unfolded n] sizes(3)[unfolded n] sed[unfolded n]
  have al: "algaeMesh w' = Some (take 100 (map make_dummy (filter (\<lambda>p. ptype p = None) ps')))"
    using r(4) by (simp only: assms(3) n(3))
  show ?thesis
    unfolding ALGAE_def SEDIMENT_def
    using c l s al r(2,3)
    by (simp add: r(1) meshes loop assms(3)[symmetric])
qed

theorem C1_witness:
  "algaeMesh (useFrame \<lparr>flowRate = 1, density = 300, isRunning = True, viewMode = NATURE\<rparr> 0.016
       (mounted (sconst 0) identity_transform))
     = Some (take 100 (map make_dummy (filter (\<lambda>p. ptype p = ALGAE)
         (particles (useFrame \<lparr>flowRate = 1, density = 300, isRunning = True, viewMode = NATURE\<rparr>
            0.016 (mounted (sconst 0) identity_transform))))))
   \<and> length (filter (\<lambda>p. ptype p = ALGAE)
         (particles (useFrame \<lparr>flowRate = 1, density = 300, isRunning = True, viewMode = NATURE\<rparr>
            0.016 (mounted (sconst 0) identity_transform)))) = 200
   \<and> sedimentMesh (useFrame \<lparr>flowRate = 1, density = 300, isRunning = True, viewMode = NATURE\<rparr>
         0.016 (mounted (sconst 0) identity_transform))
     = Some (replicate COUNT_SEDIMENT identity_transform)"
proof -
  have run: "isRunning \<lparr>flowRate = 1, density = 300, isRunning = True, viewMode = NATURE\<rparr>"
    by simp
  have w: "mounted (sconst 0) identity_transform = frames [] (mounted (sconst 0) identity_transform)"
    by simp
  from C1_algae_mesh_takes_both_bands[OF run w refl, of "0.016"]
  show ?thesis by (elim conjE) (intro conjI, assumption+)
qed

text \<open>
  C2 does not hold of the component for the ALGAE band. The transform emitted for a
  particle in a frame has, in all three components of its scale, 0.08 for a WATER particle,
  times 0.1 when it is permeated at that moment, 0.15 for a MICROPLASTIC particle, and 0.1
  for a particle of type \<open>undefined\<close>: the test for \<open>ParticleType.SEDIMENT\<close> succeeds for it
  after the test for \<open>ParticleType.ALGAE\<close> and replaces the 0.12 by 0.1. The particle at
  place 600, the first of the ALGAE band, is such a particle.
\<close>

theorem C2_algae_band_scale:
  "obj_scale (make_dummy (fst (update_particle fr delta p g))) =
     (let s = (case ptype p of
                 Some WATER \<Rightarrow>
                   if filtered (fst (update_particle fr delta p g)) then 0.08 * 0.1 else 0.08
               | Some MICROPLASTIC \<Rightarrow> 0.15
               | None \<Rightarrow> 0.1)
      in \<lparr>vec_x = s, vec_y = s, vec_z = s\<rparr>)
   \<and> ptype (fst (new_particle 600 g')) = ALGAE
   \<and> ALGAE = None
   \<and> obj_scale (make_dummy (fst (update_particle fr delta (fst (new_particle 600 g')) g)))
       = \<lparr>vec_x = 0.1, vec_y = 0.1, vec_z = 0.1\<rparr>"
proof -
  have scale: "obj_scale (make_dummy q) =
     (let s = (case ptype q of
                 Some WATER \<Rightarrow> if filtered q then 0.08 * 0.1 else 0.08
               | Some MICROPLASTIC \<Rightarrow> 0.15
               | None \<Rightarrow> 0.1)
      in \<lparr>vec_x = s, vec_y = s, vec_z = s\<rparr>)" for q
  proof (cases "ptype q")
    case None
    then show ?thesis
      by (simp add: make_dummy_def render_scale_def Let_def ALGAE_def SEDIMENT_def)
  next
    case (Some T)
    then show ?thesis
      by (cases T) (simp_all add: make_dummy_def render_scale_def Let_def ALGAE_def SEDIMENT_def)
  qed
  have first: "obj_scale (make_dummy (fst (update_particle fr delta p g))) =
     (let s = (case ptype p of
                 Some WATER \<Rightarrow>
                   if filtered (fst (update_particle fr delta p g)) then 0.08 * 0.1 else 0.08
               | Some MICROPLASTIC \<Rightarrow> 0.15
               | None \<Rightarrow> 0.1)
      in \<lparr>vec_x = s, vec_y = s, vec_z = s\<rparr>)"
    using scale[of "fst (update_particle fr delta p g)"] by (simp only: ptype_update)
  have band: "ptype (fst (new_particle 600 g')) = ALGAE"
    by (simp add: new_particle_def Let_def type_of_index_def count_defs)
  have und: "ALGAE = None" by (rule ALGAE_def)
  have "ptype (fst (update_particle fr delta (fst (new_particle 600 g')) g)) = None"
    using band und by (simp only: ptype_update)
  then have "obj_scale (make_dummy (fst (update_particle fr delta (fst (new_particle 600 g')) g)))
       = \<lparr>vec_x = 0.1, vec_y = 0.1, vec_z = 0.1\<rparr>"
    using scale[of "fst (update_particle fr delta (fst (new_particle 600 g')) g)"]
    by (simp add: Let_def)
  with first band und show ?thesis by blast
qed

text \<open>
  C3, as stated, fails. With flow rate 1 and time step 0.1 the move multiplies the velocity
  by \<open>1 * 10 * 0.1 = 1\<close>, so already with the slowest axial velocity \<open>-0.5\<close> the particle
  sinks by 0.5, ten times the 0.05 of the claim, to \<open>z = 8.5\<close>. That is outside the
  interaction band \<open>-10 < z < 5\<close>, so nothing reflects it: its distance from the axis is
  still 2.4 and not near \<open>coneRadius(1) - 0.3 = 2.05\<close>.
\<close>

theorem C3_counterexample:
  "vec_z (position (scenario_particle (- 0.5) \<lparr>eul_x = 0, eul_y = 0, eul_z = 0\<rparr> 0))
     - vec_z (position (fst (update_particle 1 0.1
         (scenario_particle (- 0.5) \<lparr>eul_x = 0, eul_y = 0, eul_z = 0\<rparr> 0) (sconst 0)))) = 0.5
   \<and> distFromCenter (position (fst (update_particle 1 0.1
         (scenario_particle (- 0.5) \<lparr>eul_x = 0, eul_y = 0, eul_z = 0\<rparr> 0) (sconst 0)))) = 2.4
   \<and> currentConeRadius \<lparr>vec_x = 2.4, vec_y = 0, vec_z = 10 - 1\<rparr> - 0.3 = 2.05"
  by (simp add: update_particle_def advance_def step_defs needs_reset_def scenario_particle_def
      Let_def bounds_defs currentConeRadius_def)

text \<open>
  C3, amended: the MICROPLASTIC particle at \<open>(2.4, 0, 9)\<close> with velocity \<open>(0, 0, vz)\<close>,
  \<open>-1 \<le> vz \<le> -0.5\<close>, under one frame with flow rate 1 and time step 0.1: its \<open>z\<close> decreases
  by \<open>|vz| * 1 * 10 * 0.1 = |vz|\<close>, between 0.5 and 1; its new \<open>z\<close> is not below 5, so it is
  outside the interaction band and is not reflected: \<open>x\<close>, \<open>y\<close> and the velocity are
  unchanged and its distance from the axis is still 2.4. Only the rotation has advanced by
  the spin.
\<close>

theorem C3_scenario_not_reflected:
  assumes "- 1 \<le> vz" and "vz \<le> - 0.5"
  shows "fst (update_particle 1 0.1 (scenario_particle vz rot spin) g) =
      (scenario_particle vz rot spin)
        \<lparr>position := \<lparr>vec_x = 2.4, vec_y = 0, vec_z = 9 + vz\<rparr>,
         rotation := rot\<lparr>eul_x := eul_x rot + spin, eul_y := eul_y rot + spin\<rparr>\<rparr>
    \<and> vec_z (position (scenario_particle vz rot spin))
        - vec_z (position (fst (update_particle 1 0.1 (scenario_particle vz rot spin) g))) = - vz
    \<and> 0.5 \<le> - vz \<and> - vz \<le> 1
    \<and> \<not> vec_z (position (fst (update_particle 1 0.1 (scenario_particle vz rot spin) g))) < 5
    \<and> distFromCenter (position (fst (update_particle 1 0.1 (scenario_particle vz rot spin) g))) = 2.4
    \<and> velocity (fst (update_particle 1 0.1 (scenario_particle vz rot spin) g))
        = velocity (scenario_particle vz rot spin)"
proof -
  have "fst (update_particle 1 0.1 (scenario_particle vz rot spin) g) =
      (scenario_particle vz rot spin)
        \<lparr>position := \<lparr>vec_x = 2.4, vec_y = 0, vec_z = 9 + vz\<rparr>,
         rotation := rot\<lparr>eul_x := eul_x rot + spin, eul_y := eul_y rot + spin\<rparr>\<rparr>"
    using assms
    by (simp add: update_particle_def advance_def step_defs needs_reset_def scenario_particle_def
        Let_def END_Z_def)
  then show ?thesis using assms by (simp add: scenario_particle_def)
qed

theorem C3_witness:
  "distFromCenter (position (fst (update_particle 1 0.1
      (scenario_particle (- 0.75) \<lparr>eul_x = 0, eul_y = 0, eul_z = 0\<rparr> 0.05) (sconst 0)))) = 2.4"
  using C3_scenario_not_reflected[of "- 0.75" "\<lparr>eul_x = 0, eul_y = 0, eul_z = 0\<rparr>" "0.05" "sconst 0"]
  by simp

text \<open>
  C4: a solid particle (not WATER) that the move of this frame has brought into the
  interaction band \<open>-10 < z < 5\<close> at a distance from the axis of at least
  \<open>coneRadius(depth) - 0.2\<close>, with \<open>depth = 10 - z\<close> and
  \<open>coneRadius(depth) = max(0.5, 2.5 - 0.15 * depth)\<close>, is after the frame at a distance of
  exactly \<open>0.99 * (coneRadius(depth) - 0.3)\<close>, hence at most \<open>coneRadius(depth) - 0.3 + eps\<close>
  for every \<open>eps \<ge> 0\<close>, and still at the depth the move brought it to.
\<close>

theorem C4_wall_contact_clamps_inside:
  assumes "ptype p \<noteq> Some WATER"
    and "- 10 < vec_z (position (move_forward fr delta p))"
    and "vec_z (position (move_forward fr delta p)) < 5"
    and "max 0.5 (2.5 - 0.15 * (10 - vec_z (position (move_forward fr delta p)))) - 0.2
           \<le> distFromCenter (position (move_forward fr delta p))"
    and "0 \<le> eps"
  shows "distFromCenter (position (fst (update_particle fr delta p g)))
           \<le> max 0.5 (2.5 - 0.15 * (10 - vec_z (position (move_forward fr delta p)))) - 0.3 + eps
         \<and> distFromCenter (position (fst (update_particle fr delta p g)))
           = 0.99 * (max 0.5 (2.5 - 0.15 * (10 - vec_z (position (move_forward fr delta p)))) - 0.3)
         \<and> vec_z (position (fst (update_particle fr delta p g)))
           = vec_z (position (move_forward fr delta p))"
proof -
  note w = solid_wall_contact[OF assms(1-3), unfolded cone_formula, OF assms(4)]
  have "fst (update_particle fr delta p g) = advance fr delta p"
    using w(3) by (simp add: update_particle_def Let_def)
  moreover have
    "0 \<le> max 0.5 (2.5 - 0.15 * (10 - vec_z (position (move_forward fr delta p)))) - (0.3::real)"
    by linarith
  ultimately show ?thesis using w(1,2) assms(5) by simp
qed

theorem C4_witness:
  "distFromCenter (position (fst (update_particle 1 0.1
      \<lparr>position = \<lparr>vec_x = 2, vec_y = 0, vec_z = 1\<rparr>,
       velocity = \<lparr>vec_x = 0, vec_y = 0, vec_z = - 0.5\<rparr>,
       ptype = SEDIMENT, rotation = \<lparr>eul_x = 0, eul_y = 0, eul_z = 0\<rparr>, rotationSpeed = 0.05,
       filtered = False\<rparr> (sconst 0)))) = 0.76725"
  using C4_wall_contact_clamps_inside[of
      "\<lparr>position = \<lparr>vec_x = 2, vec_y = 0, vec_z = 1\<rparr>,
        velocity = \<lparr>vec_x = 0, vec_y = 0, vec_z = - 0.5\<rparr>,
        ptype = SEDIMENT, rotation = \<lparr>eul_x = 0, eul_y = 0, eul_z = 0\<rparr>, rotationSpeed = 0.05,
        filtered = False\<rparr>" 1 "0.1" 0 "sconst 0"]
  by (simp add: move_forward_def addScaledVector_def Let_def SEDIMENT_def)

text \<open>
  C5, as stated, fails for \<open>y\<close>: the reset test looks at \<open>z\<close> and at \<open>|x|\<close> only. The WATER
  particle built at \<open>(0, 1, 10)\<close> with velocity \<open>(0, 0.04, -0.5)\<close>, under 87 frames with flow
  rate 1 and time step 0.08, sinks for 12 frames above the band, is pushed outwards in four
  frames at the wall (to the lateral velocity 0.24, while its axial velocity shrinks to
  \<open>-0.32805\<close>) and then drifts for 71 frames as a permeated particle. It is never reset and
  ends at \<open>y = 15.384\<close>, more than six times \<open>R0 = 2.5\<close>, having moved by \<open>0.192\<close> in \<open>y\<close>
  per frame.
\<close>

theorem C5_counterexample:
  "position (hd (particles (frames
       (replicate 87 (\<lparr>flowRate = 1, density = 300, isRunning = True, viewMode = NATURE\<rparr>, 0.08))
       drifting_world)))
     = \<lparr>vec_x = 0, vec_y = 15.384, vec_z = - 14.80884\<rparr>
   \<and> \<not> \<bar>vec_y (position (hd (particles (frames
       (replicate 87 (\<lparr>flowRate = 1, density = 300, isRunning = True, viewMode = NATURE\<rparr>, 0.08))
       drifting_world))))\<bar> \<le> 5 + 10"
proof -
  let ?pr = "\<lparr>flowRate = 1, density = 300, isRunning = True, viewMode = NATURE\<rparr>"
  have f: "particles drifting_world \<noteq> []" "hd (particles drifting_world) = drifting_particle"
    using first_particle by (simp_all add: drifting_world_def drifting_particle_def)
  have m: "waterMesh drifting_world \<noteq> None \<and> plasticMesh drifting_world \<noteq> None
       \<and> algaeMesh drifting_world \<noteq> None \<and> sedimentMesh drifting_world \<noteq> None"
    unfolding drifting_world_def by (rule mounted_meshes)
  have r: "isRunning ?pr" by simp
  have "flowRate ?pr = 1" by simp
  with frames_hd[OF r f(1) m, of 87 "0.08"] have "\<exists>gs. length gs = 87 \<and>
    hd (particles (frames (replicate 87 (?pr, 0.08)) drifting_world)) =
       life (map (\<lambda>g. (1, 0.08, g)) gs) drifting_particle"
    by (simp only: f(2))
  then obtain gs where gs: "length gs = 87"
    "hd (particles (frames (replicate 87 (?pr, 0.08)) drifting_world)) =
       life (map (\<lambda>g. (1, 0.08, g)) gs) drifting_particle"
    by blast
  show ?thesis unfolding gs(2) drifting_life[OF gs(1)] by simp
qed

text \<open>
  C5, amended: in every state the mounted component reaches, every particle has
  \<open>-15 \<le> position.z\<close> and \<open>|position.x| \<le> 5\<close>, that is \<open>2 * R0\<close>, without any overshoot; and
  when the frames so far all had a non-negative flow rate and time step, also
  \<open>position.z \<le> 10 + 20\<close>. Nothing is said about \<open>y\<close>.
\<close>

theorem C5_depth_and_x_bounded:
  assumes "sset g0 \<subseteq> {0..<1}"
    and "p \<in> set (particles (frames ins (mounted g0 fill)))"
  shows "- 15 \<le> vec_z (position p) \<and> \<bar>vec_x (position p)\<bar> \<le> 5
    \<and> ((\<forall>(pr, delta) \<in> set ins. 0 \<le> flowRate pr \<and> 0 \<le> delta) \<longrightarrow> vec_z (position p) \<le> 10 + 20)"
  using particles_floor[OF assms] particles_bounded[OF assms(1) _ assms(2)] by simp

theorem C5_witness:
  "- 15 \<le> vec_z (position (hd (particles (frames
       [(\<lparr>flowRate = 1, density = 300, isRunning = True, viewMode = NATURE\<rparr>, 0.016),
        (\<lparr>flowRate = 5, density = 300, isRunning = True, viewMode = NATURE\<rparr>, 2)]
       drifting_world))))
   \<and> vec_z (position (hd (particles (frames
       [(\<lparr>flowRate = 1, density = 300, isRunning = True, viewMode = NATURE\<rparr>, 0.016),
        (\<lparr>flowRate = 5, density = 300, isRunning = True, viewMode = NATURE\<rparr>, 2)]
       drifting_world)))) \<le> 10 + 20
   \<and> \<bar>vec_x (position (hd (particles (frames
       [(\<lparr>flowRate = 1, density = 300, isRunning = True, viewMode = NATURE\<rparr>, 0.016),
        (\<lparr>flowRate = 5, density = 300, isRunning = True, viewMode = NATURE\<rparr>, 2)]
       drifting_world))))\<bar> \<le> 5"
  unfolding drifting_world_def
  using C5_depth_and_x_bounded[OF _ first_in_frames,
      of "[0.4, 0.25, 0, 0.5, 0.9] @- sconst 0"
         "[(\<lparr>flowRate = 1, density = 300, isRunning = True, viewMode = NATURE\<rparr>, 0.016),
           (\<lparr>flowRate = 5, density = 300, isRunning = True, viewMode = NATURE\<rparr>, 2)]"
         identity_transform]
  by simp

text \<open>
  C6: a WATER particle whose permeated flag is set keeps it through a frame exactly when
  the frame does not recycle it, that is, when the move of the frame takes it neither below
  \<open>z = -15\<close> nor beyond \<open>|x| = 5\<close>; a recycling frame clears the flag. Steps 1 to 3 only move
  such a particle and leave the flag set, so over any number of frames none of which
  recycles it the flag stays set.
\<close>

theorem C6_permeated_until_recycle:
  assumes "ptype p = Some WATER" and "filtered p"
  shows "advance fr delta p = move_forward fr delta p
    \<and> filtered (advance fr delta p)
    \<and> (needs_reset (advance fr delta p) \<longleftrightarrow>
         vec_z (position p) + vec_z (velocity p) * (fr * 10 * delta) < - 15
         \<or> 5 < \<bar>vec_x (position p) + vec_x (velocity p) * (fr * 10 * delta)\<bar>)
    \<and> (filtered (fst (update_particle fr delta p g)) \<longleftrightarrow> \<not> needs_reset (advance fr delta p))
    \<and> ((\<forall>k<length ins. (case ins ! k of (fr', delta', g') \<Rightarrow>
            \<not> needs_reset (advance fr' delta' (life (take k ins) p))))
         \<longrightarrow> filtered (life ins p))"
proof -
  have a: "advance fr delta p = move_forward fr delta p"
    using assms by (rule advance_filtered_water)
  have r: "needs_reset (advance fr delta p) \<longleftrightarrow>
         vec_z (position p) + vec_z (velocity p) * (fr * 10 * delta) < - 15
         \<or> 5 < \<bar>vec_x (position p) + vec_x (velocity p) * (fr * 10 * delta)\<bar>"
    unfolding a by (simp add: needs_reset_def move_forward_def addScaledVector_def Let_def END_Z_def)
  show ?thesis
    using a r filtered_advance[OF assms(2)] filtered_update[OF assms(2)] filtered_life[OF assms(2)]
    by blast
qed

theorem C6_witness:
  "filtered (life [(1, 0.1, sconst 0), (2, 0.016, sconst 0)]
      \<lparr>position = \<lparr>vec_x = 0, vec_y = 3, vec_z = 0\<rparr>,
       velocity = \<lparr>vec_x = 0, vec_y = 0.1, vec_z = - 0.5\<rparr>,
       ptype = Some WATER, rotation = \<lparr>eul_x = 0, eul_y = 0, eul_z = 0\<rparr>, rotationSpeed = 0,
       filtered = True\<rparr>)"
proof -
  let ?p = "\<lparr>position = \<lparr>vec_x = 0, vec_y = 3, vec_z = 0\<rparr>,
       velocity = \<lparr>vec_x = 0, vec_y = 0.1, vec_z = - 0.5\<rparr>,
       ptype = Some WATER, rotation = \<lparr>eul_x = 0, eul_y = 0, eul_z = 0\<rparr>, rotationSpeed = 0,
       filtered = True\<rparr>"
  let ?ins = "[(1, 0.1, sconst 0), (2, 0.016, sconst 0)] :: (real \<times> real \<times> real stream) list"
  have t: "ptype ?p = Some WATER" and f: "filtered ?p" by simp_all
  have n: "\<forall>k<length ?ins. (case ?ins ! k of (fr', delta', g') \<Rightarrow>
            \<not> needs_reset (advance fr' delta' (life (take k ?ins) ?p)))"
    by (simp add: All_less_Suc update_particle_def needs_reset_def advance_def step_defs
        Let_def END_Z_def)
  from C6_permeated_until_recycle[OF t f, of 1 "0.1" "sconst 0" ?ins] n show ?thesis
    by blast
qed

text \<open>
  C7: any number of frames with \<open>isRunning = false\<close> leave the whole state as it was, the
  particles (position, velocity, rotation, permeated flag), the state of the random source
  and the contents of the four instance buffers, whatever flow rate and time step each
  frame is given.
\<close>

theorem C7_paused_frames_change_nothing:
  assumes "\<forall>(pr, delta) \<in> set ins. \<not> isRunning pr"
  shows "frames ins w = w"
  using assms by (induction ins arbitrary: w) (auto simp: useFrame_def)

theorem C7_witness:
  "frames [(\<lparr>flowRate = 1, density = 300, isRunning = False, viewMode = NATURE\<rparr>, 0.016),
           (\<lparr>flowRate = 5, density = 10, isRunning = False, viewMode = PRODUCT\<rparr>, 2)]
     \<lparr>particles = [fst (new_particle 0 (sconst 0))], random = sconst 0,
      waterMesh = Some [], plasticMesh = Some [], algaeMesh = Some [], sedimentMesh = Some []\<rparr>
   = \<lparr>particles = [fst (new_particle 0 (sconst 0))], random = sconst 0,
      waterMesh = Some [], plasticMesh = Some [], algaeMesh = Some [], sedimentMesh = Some []\<rparr>"
  by (rule C7_paused_frames_change_nothing) simp

text \<open>
  C8: two runs from the same state whose frames agree in flow rate, running flag and time
  step, and so differ at most in the density given to the component (and in the view mode,
  which only colours the water), end in the same state: the same particles, the same
  state of the random source, the same instance buffers.
\<close>

theorem C8_density_not_read:
  assumes "list_all2 (\<lambda>(p, d) (q, e). flowRate p = flowRate q \<and> isRunning p = isRunning q \<and> d = e)
             xs ys"
  shows "frames xs w = frames ys w"
  using assms
proof (induction xs ys arbitrary: w rule: list_all2_induct)
  case Nil
  then show ?case by simp
next
  case (Cons x xs y ys)
  obtain p d where x: "x = (p, d)" by (cases x)
  obtain q e where y: "y = (q, e)" by (cases y)
  from Cons.hyps(1) x y have "useFrame p d w = useFrame q e w"
    by (auto intro: useFrame_reads)
  then show ?case using Cons.IH x y by simp
qed

theorem C8_witness:
  "frames [(\<lparr>flowRate = 1, density = 300, isRunning = True, viewMode = NATURE\<rparr>, 0.016)]
     \<lparr>particles = [fst (new_particle 0 (sconst 0))], random = sconst 0,
      waterMesh = Some [], plasticMesh = Some [], algaeMesh = Some [], sedimentMesh = Some []\<rparr>
   = frames [(\<lparr>flowRate = 1, density = 1000, isRunning = True, viewMode = NATURE\<rparr>, 0.016)]
     \<lparr>particles = [fst (new_particle 0 (sconst 0))], random = sconst 0,
      waterMesh = Some [], plasticMesh = Some [], algaeMesh = Some [], sedimentMesh = Some []\<rparr>"
  by (rule C8_density_not_read) simp



text \<open>
  C10: every particle, in every state the mounted component reaches, has a negative axial
  velocity \<open>velocity.z\<close>. It is set to \<open>-(0.5 + u * 0.5)\<close>, a number from \<open>-1\<close> to \<open>-0.5\<close>,
  from a random number \<open>u\<close> when the particle is built and whenever it is reset; steps 1 to 3
  of a frame leave it as it is or multiply it by 1.1 or by 0.9; and in a frame with positive
  flow rate and positive time step that does not reset the particle, \<open>position.z\<close>
  decreases.
\<close>

theorem C10_axial_velocity_negative:
  assumes "sset g0 \<subseteq> {0..<1}"
    and "p \<in> set (particles (frames ins (mounted g0 fill)))"
  shows "vec_z (velocity p) < 0
    \<and> vec_z (velocity (fst (new_particle i g))) = - (0.5 + g !! 5 * 0.5)
    \<and> vec_z (velocity (fst (reset q g))) = - (0.5 + g !! 5 * 0.5)
    \<and> (sset g \<subseteq> {0..<1} \<longrightarrow> - 1 \<le> - (0.5 + g !! 5 * 0.5) \<and> - (0.5 + g !! 5 * 0.5) \<le> - 0.5)
    \<and> vec_z (velocity (advance fr delta p)) \<in>
        {vec_z (velocity p), vec_z (velocity p) * 1.1, vec_z (velocity p) * 0.9}
    \<and> (0 < fr \<and> 0 < delta \<and> \<not> needs_reset (advance fr delta p) \<longrightarrow>
        vec_z (position (fst (update_particle fr delta p g))) < vec_z (position p))"
proof -
  have "in_life p" using assms by (rule particles_in_life)
  then have neg: "vec_z (velocity p) < 0" by (rule in_life_vz)
  have range: "sset g \<subseteq> {0..<1} \<longrightarrow>
      - 1 \<le> - (0.5 + g !! 5 * 0.5) \<and> - (0.5 + g !! 5 * 0.5) \<le> - 0.5"
    using random_range[of g 5] by auto
  have falls: "vec_z (position (fst (update_particle fr delta p g))) < vec_z (position p)"
    if "0 < fr" "0 < delta" "\<not> needs_reset (advance fr delta p)"
  proof -
    have "0 < fr * 10 * delta" using that by simp
    then have "vec_z (velocity p) * (fr * 10 * delta) < 0" using neg by (simp add: mult_neg_pos)
    then show ?thesis using that(3) by (simp add: update_particle_def Let_def z_advance)
  qed
  show ?thesis using neg range falls vz_new vz_reset vz_advance by blast
qed

theorem C10_witness:
  "vec_z (velocity (fst (new_particle 0 (sconst 0)))) < 0 \<and>
   vec_z (position (fst (update_particle 1 0.1 (fst (new_particle 0 (sconst 0))) (sconst 0))))
     < vec_z (position (fst (new_particle 0 (sconst 0))))"
proof -
  have g: "sset (sconst (0::real)) \<subseteq> {0..<1}" by simp
  have "hd (particles (frames [] (mounted (sconst 0) identity_transform)))
      \<in> set (particles (frames [] (mounted (sconst 0) identity_transform)))"
    by (rule first_in_frames)
  then have l: "fst (new_particle 0 (sconst 0))
      \<in> set (particles (frames [] (mounted (sconst 0) identity_transform)))"
    using first_particle[of "sconst 0" identity_transform] by simp
  have n: "\<not> needs_reset (advance 1 0.1 (fst (new_particle 0 (sconst 0))))"
    by (simp add: needs_reset_def advance_def step_defs new_particle_def Let_def bounds_defs
        type_of_index_def COUNT_WATER_def)
  show ?thesis
    using C10_axial_velocity_negative[OF g l, of 0 "sconst 0" "fst (new_particle 0 (sconst 0))" 1 "0.1"] n by simp
qed

end
